theory Spec2Isabelle
  imports Complex_Main
begin

section \<open>JavaScript values\<close>

text \<open>
  The route handlers work on untyped data: the bodies of upstream replies and the
  results of \<^verbatim>\<open>JSON.parse\<close>. The TypeScript interfaces are erased at run time, so a
  field declared \<^verbatim>\<open>string\<close> can hold any value. Values are therefore modelled as the
  run-time values they are. A number is a real number, so a JSON number with a fraction
  is a value like any other; the rounding of doubles, NaN and the infinities are not
  modelled. An object is the list of its own enumerable properties in enumeration order,
  the order \<^verbatim>\<open>for (const key in obj)\<close> visits them.
\<close>

datatype jsval =
    Undefined
  | Null
  | Bool bool
  | Num real
  | Str string
  | Arr "jsval list"
  | Obj "(string \<times> jsval) list"

text \<open>
  Thrown values. Every value the handlers catch is an \<^verbatim>\<open>Error\<close> object, and only its
  \<^verbatim>\<open>message\<close> is read. The texts of the errors the engine raises follow V8; nothing
  below depends on them.
\<close>

datatype exn =
    TypeError string
  | SyntaxError string
  | Error string
  | AxiosError string

fun message :: "exn \<Rightarrow> string" where
  "message (TypeError m) = m"
| "message (SyntaxError m) = m"
| "message (Error m) = m"
| "message (AxiosError m) = m"

definition cannot_read :: "string \<Rightarrow> exn" where
  "cannot_read k = TypeError (''Cannot read properties of undefined (reading '' @ k @ '')'')"

definition not_a_function :: "string \<Rightarrow> exn" where
  "not_a_function k = TypeError (k @ '' is not a function'')"

definition not_iterable :: exn where
  "not_iterable = TypeError ''object is not iterable''"

text \<open>Sequencing of steps that may throw: the first throw ends the block.\<close>

definition and_then :: "exn + 'a \<Rightarrow> ('a \<Rightarrow> exn + 'b) \<Rightarrow> exn + 'b" where
  "and_then r f = (case r of Inl e \<Rightarrow> Inl e | Inr v \<Rightarrow> f v)"

fun for_each :: "('a \<Rightarrow> exn + 'b) \<Rightarrow> 'a list \<Rightarrow> exn + 'b list" where
  "for_each f [] = Inr []"
| "for_each f (x # xs) =
     (case f x of
        Inl e \<Rightarrow> Inl e
      | Inr y \<Rightarrow> (case for_each f xs of Inl e \<Rightarrow> Inl e | Inr ys \<Rightarrow> Inr (y # ys)))"

text \<open>Truthiness, as \<^verbatim>\<open>if (v)\<close>, \<^verbatim>\<open>!v\<close>, \<^verbatim>\<open>v || w\<close> and \<^verbatim>\<open>Boolean(v)\<close> read it.\<close>

fun truthy :: "jsval \<Rightarrow> bool" where
  "truthy Undefined = False"
| "truthy Null = False"
| "truthy (Bool b) = b"
| "truthy (Num n) = (n \<noteq> 0)"
| "truthy (Str s) = (s \<noteq> [])"
| "truthy (Arr xs) = True"
| "truthy (Obj ps) = True"

definition js_or :: "jsval \<Rightarrow> jsval \<Rightarrow> jsval" where
  "js_or a b = (if truthy a then a else b)"

text \<open>\<^verbatim>\<open>typeof v === 'object'\<close>: objects, arrays and \<^verbatim>\<open>null\<close>.\<close>

fun typeof_object :: "jsval \<Rightarrow> bool" where
  "typeof_object Null = True"
| "typeof_object (Arr xs) = True"
| "typeof_object (Obj ps) = True"
| "typeof_object v = False"

fun typeof_string :: "jsval \<Rightarrow> bool" where
  "typeof_string (Str s) = True"
| "typeof_string v = False"

fun isArray :: "jsval \<Rightarrow> bool" where
  "isArray (Arr xs) = True"
| "isArray v = False"

text \<open>
  \<^verbatim>\<open>v.k\<close> for the field names the handlers read (none of them is a built-in property of
  an array, a string, a number or a boolean): a read on \<^verbatim>\<open>null\<close> or \<^verbatim>\<open>undefined\<close> throws,
  a missing property and any property of a primitive is \<^verbatim>\<open>undefined\<close>.
\<close>

fun read_prop :: "jsval \<Rightarrow> string \<Rightarrow> exn + jsval" where
  "read_prop Undefined k = Inl (cannot_read k)"
| "read_prop Null k = Inl (cannot_read k)"
| "read_prop (Obj ps) k = Inr (case map_of ps k of None \<Rightarrow> Undefined | Some v \<Rightarrow> v)"
| "read_prop v k = Inr Undefined"

text \<open>\<^verbatim>\<open>v?.k\<close>: \<^verbatim>\<open>undefined\<close> on \<^verbatim>\<open>null\<close> and \<^verbatim>\<open>undefined\<close>, never a throw.\<close>

fun read_opt :: "jsval \<Rightarrow> string \<Rightarrow> jsval" where
  "read_opt (Obj ps) k = (case map_of ps k of None \<Rightarrow> Undefined | Some v \<Rightarrow> v)"
| "read_opt v k = Undefined"

text \<open>\<^verbatim>\<open>v[0]\<close>, throwing on \<^verbatim>\<open>null\<close> and \<^verbatim>\<open>undefined\<close>, and \<^verbatim>\<open>v?.[0]\<close>.\<close>

fun first_elem :: "jsval \<Rightarrow> jsval" where
  "first_elem (Arr (x # xs)) = x"
| "first_elem (Str (c # cs)) = Str [c]"
| "first_elem (Obj ps) = (case map_of ps ''0'' of None \<Rightarrow> Undefined | Some v \<Rightarrow> v)"
| "first_elem v = Undefined"

fun index0 :: "jsval \<Rightarrow> exn + jsval" where
  "index0 Undefined = Inl (cannot_read ''0'')"
| "index0 Null = Inl (cannot_read ''0'')"
| "index0 v = Inr (first_elem v)"

text \<open>\<^verbatim>\<open>'k' in v\<close> for an object or array \<open>v\<close> (the handlers guard it by \<^verbatim>\<open>typeof\<close>).\<close>

fun has_prop :: "string \<Rightarrow> jsval \<Rightarrow> bool" where
  "has_prop k (Obj ps) = (map_of ps k \<noteq> None)"
| "has_prop k v = False"

section \<open>The nested search of Tier 1: \<^verbatim>\<open>findUserData\<close>\<close>

text \<open>
  \<^verbatim>\<open>
  function findUserData(obj, depth = 0) {
      if (!obj || typeof obj !== 'object' || depth > 5) return null;
      if ('username' in obj && typeof obj.username === 'string' &&
          (('full_name' in obj && typeof obj.full_name === 'string') || ... biography ...
           || ... profile_pic_url ...)) return obj;
      for (const key in obj)
          if (hasOwnProperty(obj, key))
              if (typeof obj[key] === 'object' && obj[key] !== null) {
                  const result = findUserData(obj[key], depth + 1);
                  if (result) return result;
              }
      return null;
  }
  \<close>
  \<open>None\<close> is the \<^verbatim>\<open>null\<close> result. The loop over the keys is \<open>findUserData_props\<close> for an
  object and \<open>findUserData_elems\<close> for an array (its keys are its indices).
\<close>

definition looks_like_user :: "jsval \<Rightarrow> bool" where
  "looks_like_user obj =
     (has_prop ''username'' obj \<and> typeof_string (read_opt obj ''username'') \<and>
      ((has_prop ''full_name'' obj \<and> typeof_string (read_opt obj ''full_name'')) \<or>
       (has_prop ''biography'' obj \<and> typeof_string (read_opt obj ''biography'')) \<or>
       (has_prop ''profile_pic_url'' obj \<and> typeof_string (read_opt obj ''profile_pic_url''))))"

fun findUserData :: "jsval \<Rightarrow> nat \<Rightarrow> jsval option"
  and findUserData_props :: "(string \<times> jsval) list \<Rightarrow> nat \<Rightarrow> jsval option"
  and findUserData_elems :: "jsval list \<Rightarrow> nat \<Rightarrow> jsval option"
where
  "findUserData (Obj ps) depth =
     (if depth > 5 then None
      else if looks_like_user (Obj ps) then Some (Obj ps)
      else findUserData_props ps depth)"
| "findUserData (Arr xs) depth =
     (if depth > 5 then None else findUserData_elems xs depth)"
| "findUserData Undefined depth = None"
| "findUserData Null depth = None"
| "findUserData (Bool b) depth = None"
| "findUserData (Num n) depth = None"
| "findUserData (Str s) depth = None"
| "findUserData_props [] depth = None"
| "findUserData_props ((k, v) # ps) depth =
     (if typeof_object v \<and> v \<noteq> Null then
        (case findUserData v (depth + 1) of
           Some r \<Rightarrow> Some r
         | None \<Rightarrow> findUserData_props ps depth)
      else findUserData_props ps depth)"
| "findUserData_elems [] depth = None"
| "findUserData_elems (v # vs) depth =
     (if typeof_object v \<and> v \<noteq> Null then
        (case findUserData v (depth + 1) of
           Some r \<Rightarrow> Some r
         | None \<Rightarrow> findUserData_elems vs depth)
      else findUserData_elems vs depth)"

text \<open>
  The same search, recording every object whose properties it examines (every call that
  passes the guard on the first line), in the order of the calls: where the object
  stands in the value the search was started on, as the path of positions that leads to
  it (the position of a property in the enumeration order of its object, the index of
  an element in its array), and the \<open>depth\<close> argument of the call that examines it.
\<close>

fun findUserData_log :: "jsval \<Rightarrow> nat \<Rightarrow> jsval option \<times> (nat list \<times> nat) list"
  and findUserData_log_props ::
    "(string \<times> jsval) list \<Rightarrow> nat \<Rightarrow> nat \<Rightarrow> jsval option \<times> (nat list \<times> nat) list"
  and findUserData_log_elems ::
    "jsval list \<Rightarrow> nat \<Rightarrow> nat \<Rightarrow> jsval option \<times> (nat list \<times> nat) list"
where
  "findUserData_log (Obj ps) depth =
     (if depth > 5 then (None, [])
      else if looks_like_user (Obj ps) then (Some (Obj ps), [([], depth)])
      else (case findUserData_log_props ps depth 0 of (r, l) \<Rightarrow> (r, ([], depth) # l)))"
| "findUserData_log (Arr xs) depth =
     (if depth > 5 then (None, [])
      else (case findUserData_log_elems xs depth 0 of (r, l) \<Rightarrow> (r, ([], depth) # l)))"
| "findUserData_log Undefined depth = (None, [])"
| "findUserData_log Null depth = (None, [])"
| "findUserData_log (Bool b) depth = (None, [])"
| "findUserData_log (Num n) depth = (None, [])"
| "findUserData_log (Str s) depth = (None, [])"
| "findUserData_log_props [] depth i = (None, [])"
| "findUserData_log_props ((k, v) # ps) depth i =
     (if typeof_object v \<and> v \<noteq> Null then
        (case findUserData_log v (depth + 1) of
           (Some r, l) \<Rightarrow> (Some r, map (\<lambda>(p, d). (i # p, d)) l)
         | (None, l) \<Rightarrow>
             (case findUserData_log_props ps depth (Suc i) of
                (r, l') \<Rightarrow> (r, map (\<lambda>(p, d). (i # p, d)) l @ l')))
      else findUserData_log_props ps depth (Suc i))"
| "findUserData_log_elems [] depth i = (None, [])"
| "findUserData_log_elems (v # vs) depth i =
     (if typeof_object v \<and> v \<noteq> Null then
        (case findUserData_log v (depth + 1) of
           (Some r, l) \<Rightarrow> (Some r, map (\<lambda>(p, d). (i # p, d)) l)
         | (None, l) \<Rightarrow>
             (case findUserData_log_elems vs depth (Suc i) of
                (r, l') \<Rightarrow> (r, map (\<lambda>(p, d). (i # p, d)) l @ l')))
      else findUserData_log_elems vs depth (Suc i))"

text \<open>
  Nesting, independently of the search. \<open>node_at v p\<close> is the value reached from \<open>v\<close> by
  the path \<open>p\<close>: one step enters a property of an object or an element of an array, so
  the length of the path is the number of levels the value lies below \<open>v\<close>.
\<close>

fun node_at :: "jsval \<Rightarrow> nat list \<Rightarrow> jsval option" where
  "node_at v [] = Some v"
| "node_at (Obj ps) (i # p) = (if i < length ps then node_at (snd (ps ! i)) p else None)"
| "node_at (Arr xs) (i # p) = (if i < length xs then node_at (xs ! i) p else None)"
| "node_at v (i # p) = None"

text \<open>
  \<open>nodes_upto n v\<close>: the objects and arrays of \<open>v\<close> that lie at most \<open>n\<close> levels below it,
  each with its path, parents before children and siblings in enumeration order.
\<close>

fun nodes_upto :: "nat \<Rightarrow> jsval \<Rightarrow> (nat list \<times> jsval) list"
  and nodes_upto_props :: "nat \<Rightarrow> nat \<Rightarrow> (string \<times> jsval) list \<Rightarrow> (nat list \<times> jsval) list"
  and nodes_upto_elems :: "nat \<Rightarrow> nat \<Rightarrow> jsval list \<Rightarrow> (nat list \<times> jsval) list"
where
  "nodes_upto n (Obj ps) =
     ([], Obj ps) # (case n of 0 \<Rightarrow> [] | Suc m \<Rightarrow> nodes_upto_props m 0 ps)"
| "nodes_upto n (Arr xs) =
     ([], Arr xs) # (case n of 0 \<Rightarrow> [] | Suc m \<Rightarrow> nodes_upto_elems m 0 xs)"
| "nodes_upto n Undefined = []"
| "nodes_upto n Null = []"
| "nodes_upto n (Bool b) = []"
| "nodes_upto n (Num r) = []"
| "nodes_upto n (Str s) = []"
| "nodes_upto_props m i [] = []"
| "nodes_upto_props m i ((k, v) # ps) =
     map (\<lambda>(p, w). (i # p, w)) (nodes_upto m v) @ nodes_upto_props m (Suc i) ps"
| "nodes_upto_elems m i [] = []"
| "nodes_upto_elems m i (v # vs) =
     map (\<lambda>(p, w). (i # p, w)) (nodes_upto m v) @ nodes_upto_elems m (Suc i) vs"

text \<open>A list up to and including its first user object.\<close>

fun upto_first_user :: "(nat list \<times> jsval) list \<Rightarrow> (nat list \<times> jsval) list" where
  "upto_first_user [] = []"
| "upto_first_user ((p, v) # xs) =
     (if looks_like_user v then [(p, v)] else (p, v) # upto_first_user xs)"

fun first_user :: "(nat list \<times> jsval) list \<Rightarrow> jsval option" where
  "first_user [] = None"
| "first_user ((p, v) # xs) = (if looks_like_user v then Some v else first_user xs)"

text \<open>
  A search started with the argument \<open>d\<close> that examines the nodes \<open>xs\<close>, each in a call
  whose \<open>depth\<close> is \<open>d\<close> plus the number of levels the node lies below the start.
\<close>

definition stamped :: "nat \<Rightarrow> (nat list \<times> jsval) list \<Rightarrow> (nat list \<times> nat) list" where
  "stamped d xs = map (\<lambda>(p, v). (p, d + length p)) xs"

text \<open>The number of objects and arrays in a value, at any depth.\<close>

fun count_objects :: "jsval \<Rightarrow> nat"
  and count_objects_props :: "(string \<times> jsval) list \<Rightarrow> nat"
  and count_objects_elems :: "jsval list \<Rightarrow> nat"
where
  "count_objects (Obj ps) = Suc (count_objects_props ps)"
| "count_objects (Arr xs) = Suc (count_objects_elems xs)"
| "count_objects Undefined = 0"
| "count_objects Null = 0"
| "count_objects (Bool b) = 0"
| "count_objects (Num n) = 0"
| "count_objects (Str s) = 0"
| "count_objects_props [] = 0"
| "count_objects_props ((k, v) # ps) = count_objects v + count_objects_props ps"
| "count_objects_elems [] = 0"
| "count_objects_elems (v # vs) = count_objects v + count_objects_elems vs"

section \<open>Normalising an upstream user object: \<^verbatim>\<open>processUserData\<close>\<close>

text \<open>
  The records follow the interfaces \<^verbatim>\<open>InstagramPost\<close> and \<^verbatim>\<open>InstagramUserData\<close>. Their
  fields hold run-time values: \<^verbatim>\<open>id: node.id\<close> copies whatever the upstream sent.
\<close>

record InstagramPost =
  post_id :: jsval
  shortcode :: jsval
  thumbnailUrl :: jsval
  displayUrl :: jsval
  isVideo :: jsval
  caption :: jsval
  timestamp :: jsval
  likeCount :: jsval
  commentCount :: jsval

record InstagramUserData =
  username :: jsval
  fullName :: jsval
  biography :: jsval
  profilePicture :: jsval
  postsCount :: jsval
  followersCount :: jsval
  followingCount :: jsval
  posts :: "InstagramPost list"

text \<open>
  \<^verbatim>\<open>node.edge_media_to_caption?.edges[0]?.node?.text\<close>: a missing
  \<^verbatim>\<open>edge_media_to_caption\<close> ends the whole chain with \<^verbatim>\<open>undefined\<close>; a present one without
  \<^verbatim>\<open>edges\<close> throws at \<^verbatim>\<open>[0]\<close>.
\<close>

definition caption_text :: "jsval \<Rightarrow> exn + jsval" where
  "caption_text node =
     (case read_opt node ''edge_media_to_caption'' of
        Undefined \<Rightarrow> Inr Undefined
      | Null \<Rightarrow> Inr Undefined
      | c \<Rightarrow> and_then (index0 (read_opt c ''edges''))
               (\<lambda>e. Inr (read_opt (read_opt e ''node'') ''text'')))"

text \<open>
  One pass of the loop body in \<^verbatim>\<open>processUserData\<close>; \<open>now\<close> is \<^verbatim>\<open>Date.now()\<close>, a whole
  number of milliseconds, and \<^verbatim>\<open>Math.floor(Date.now() / 1000)\<close> is \<open>now div 1000\<close>.
  \<^verbatim>\<open>edge.node\<close> and \<^verbatim>\<open>node.id\<close> throw on \<^verbatim>\<open>null\<close> and \<^verbatim>\<open>undefined\<close>; after
  them \<open>node\<close> is neither, so its other reads cannot throw.
\<close>

definition make_post :: "int \<Rightarrow> jsval \<Rightarrow> exn + InstagramPost" where
  "make_post now edge =
     and_then (read_prop edge ''node'') (\<lambda>node.
     and_then (read_prop node ''id'') (\<lambda>node_id.
     and_then (caption_text node) (\<lambda>text.
       Inr \<lparr> post_id = node_id,
             shortcode = read_opt node ''shortcode'',
             thumbnailUrl =
               js_or (read_opt node ''thumbnail_src'')
                 (js_or (read_opt (first_elem (read_opt node ''thumbnail_resources'')) ''src'')
                    (Str [])),
             displayUrl = js_or (read_opt node ''display_url'') (Str []),
             isVideo = Bool (truthy (read_opt node ''is_video'')),
             caption = js_or text (Str []),
             timestamp =
               js_or (read_opt node ''taken_at_timestamp'') (Num (of_int (now div 1000))),
             likeCount =
               js_or (read_opt (read_opt node ''edge_liked_by'') ''count'')
                 (js_or (read_opt (read_opt node ''edge_media_preview_like'') ''count'')
                    (Num 0)),
             commentCount =
               js_or (read_opt (read_opt node ''edge_media_to_comment'') ''count'') (Num 0) \<rparr>)))"

text \<open>
  An epoch integer is a number without a fractional part. A string, a boolean, an
  object, \<^verbatim>\<open>null\<close> and \<^verbatim>\<open>undefined\<close> are none.
\<close>

fun is_epoch_integer :: "jsval \<Rightarrow> bool" where
  "is_epoch_integer (Num r) = (of_int \<lfloor>r\<rfloor> = r)"
| "is_epoch_integer v = False"

text \<open>
  \<^verbatim>\<open>for (const edge of edges)\<close>: an array yields its elements, a string its characters,
  anything else is not iterable.
\<close>

fun iterate :: "jsval \<Rightarrow> exn + jsval list" where
  "iterate (Arr xs) = Inr xs"
| "iterate (Str s) = Inr (map (\<lambda>c. Str [c]) s)"
| "iterate v = Inl not_iterable"

definition processUserData :: "int \<Rightarrow> jsval \<Rightarrow> exn + InstagramUserData" where
  "processUserData now userData =
     and_then (read_prop userData ''edge_owner_to_timeline_media'') (\<lambda>media.
     and_then
       (if truthy (read_opt media ''edges'')
        then and_then (iterate (read_opt media ''edges'')) (for_each (make_post now))
        else Inr [])
       (\<lambda>ps.
       Inr \<lparr> username = js_or (read_opt userData ''username'') (Str []),
             fullName = js_or (read_opt userData ''full_name'') (Str []),
             biography = js_or (read_opt userData ''biography'') (Str []),
             profilePicture =
               js_or (read_opt userData ''profile_pic_url_hd'')
                 (js_or (read_opt userData ''profile_pic_url'') (Str [])),
             postsCount = js_or (read_opt media ''count'') (Num 0),
             followersCount =
               js_or (read_opt (read_opt userData ''edge_followed_by'') ''count'') (Num 0),
             followingCount =
               js_or (read_opt (read_opt userData ''edge_follow'') ''count'') (Num 0),
             posts = ps \<rparr>))"

section \<open>Strings\<close>

text \<open>
  Strings are byte sequences (UTF-8). \<open>trim\<close> is \<^verbatim>\<open>String.prototype.trim\<close> on the ASCII
  white space; the white space beyond ASCII that JavaScript also trims is not modelled.
\<close>

definition is_space :: "char \<Rightarrow> bool" where
  "is_space c = (c \<in> set [CHR 0x20, CHR 0x09, CHR 0x0A, CHR 0x0B, CHR 0x0C, CHR 0x0D])"

definition trim :: "string \<Rightarrow> string" where
  "trim s = rev (dropWhile is_space (rev (dropWhile is_space s)))"

text \<open>\<^verbatim>\<open>s.split(sep)[0]\<close> for a non-empty \<open>sep\<close>: the text before its first occurrence.\<close>

fun before_first :: "string \<Rightarrow> string \<Rightarrow> string" where
  "before_first sep [] = []"
| "before_first sep (c # cs) =
     (if take (length sep) (c # cs) = sep then [] else c # before_first sep cs)"

text \<open>\<^verbatim>\<open>s.split(c)\<close> for a one-character separator.\<close>

fun split_char :: "char \<Rightarrow> string \<Rightarrow> string list" where
  "split_char c [] = [[]]"
| "split_char c (x # xs) =
     (if x = c then [] # split_char c xs
      else (case split_char c xs of
              [] \<Rightarrow> [[x]]
            | y # ys \<Rightarrow> (x # y) # ys))"

text \<open>\<^verbatim>\<open>xs.filter(Boolean).pop()\<close> on strings: the last non-empty one, or \<^verbatim>\<open>undefined\<close>.\<close>

definition last_nonempty :: "string list \<Rightarrow> jsval" where
  "last_nonempty xs =
     (case rev (filter (\<lambda>x. x \<noteq> []) xs) of [] \<Rightarrow> Undefined | x # _ \<Rightarrow> Str x)"

text \<open>The separator \<^verbatim>\<open>' \<bullet> '\<close> of the page title: a bullet (U+2022) between two spaces.\<close>

definition bullet_sep :: string where
  "bullet_sep = [CHR 0x20, CHR 0xE2, CHR 0x80, CHR 0xA2, CHR 0x20]"

section \<open>Strategy C: mining the profile page\<close>

text \<open>
  \<^verbatim>\<open>extractInstagramData\<close> reads the document through two libraries: the regular
  expression engine (\<^verbatim>\<open>html.match(regex)\<close> for the five patterns of \<^verbatim>\<open>dataRegexes\<close>) and
  cheerio (\<^verbatim>\<open>meta\<close> attributes, the \<^verbatim>\<open>application/ld+json\<close> scripts). What they return for a
  document is a \<open>html_page\<close>:
  \<^item> \<open>script_matches\<close>: for each pattern, in the order of \<^verbatim>\<open>dataRegexes\<close>, \<open>None\<close> when it
    does not match, else its groups 1 and 2 (\<open>None\<close> for a group that is \<^verbatim>\<open>undefined\<close>);
  \<^item> \<open>og_title\<close>, \<open>og_url\<close>, \<open>og_image\<close>: \<^verbatim>\<open>$('meta[property=...]').attr('content')\<close>;
  \<^item> \<open>ld_json\<close>: \<^verbatim>\<open>$(script).html()\<close> of each JSON-LD script, in document order.
  \<^verbatim>\<open>JSON.parse\<close> is a parameter \<open>parse\<close>: it returns a value or throws.
\<close>

record html_page =
  script_matches :: "(string option \<times> string option) option list"
  og_title :: "string option"
  og_url :: "string option"
  og_image :: "string option"
  ld_json :: "string option list"

fun str_or_undefined :: "string option \<Rightarrow> jsval" where
  "str_or_undefined None = Undefined"
| "str_or_undefined (Some s) = Str s"

text \<open>
  \<^verbatim>\<open>if (match && (match[1] || match[2]))\<close> and \<^verbatim>\<open>jsonStr = match[2] || match[1]\<close>: the text
  handed to \<^verbatim>\<open>JSON.parse\<close>, \<open>None\<close> when the pattern is skipped.
\<close>

fun matched_text :: "(string option \<times> string option) option \<Rightarrow> string option" where
  "matched_text None = None"
| "matched_text (Some (g1, g2)) =
     (if truthy (js_or (str_or_undefined g1) (str_or_undefined g2))
      then (case js_or (str_or_undefined g2) (str_or_undefined g1) of
              Str s \<Rightarrow> Some s
            | _ \<Rightarrow> None)
      else None)"

text \<open>
  The chain of shape tests on a parsed value. \<open>Some v\<close>: \<^verbatim>\<open>capturedData = v; break\<close>.
  \<open>None\<close>: nothing captured, the loop goes on. The first branch has no \<^verbatim>\<open>else\<close> inside:
  once \<^verbatim>\<open>entry_data\<close> holds a \<^verbatim>\<open>ProfilePage\<close>, the later shapes are not tried.
\<close>

definition probe :: "jsval \<Rightarrow> jsval option" where
  "probe jsonData =
     (if typeof_object jsonData \<and> jsonData \<noteq> Null then
        (let entry_data = read_opt jsonData ''entry_data'';
             user = read_opt jsonData ''user'';
             dat = read_opt jsonData ''data'';
             graphql = read_opt jsonData ''graphql'';
             items = read_opt jsonData ''items''
         in
         if truthy entry_data \<and> typeof_object entry_data \<and> entry_data \<noteq> Null \<and>
            has_prop ''ProfilePage'' entry_data
         then
           (let profilePage = read_opt entry_data ''ProfilePage'';
                page = first_elem profilePage;
                page_graphql = read_opt page ''graphql'';
                page_user = read_opt page_graphql ''user''
            in
            if isArray profilePage \<and> truthy page \<and> typeof_object page \<and>
               truthy page_graphql \<and> typeof_object page_graphql \<and> page_graphql \<noteq> Null \<and>
               truthy page_user \<and> typeof_object page_user
            then Some page_user else None)
         else if truthy user \<and> typeof_object user then Some user
         else if truthy dat \<and> typeof_object dat \<and> dat \<noteq> Null \<and> has_prop ''user'' dat
           then Some (read_opt dat ''user'')
         else if truthy graphql \<and> typeof_object graphql \<and> graphql \<noteq> Null \<and>
                 has_prop ''user'' graphql
           then Some (read_opt graphql ''user'')
         else if truthy items \<and> isArray items then findUserData jsonData 0
         else None)
      else None)"

definition debug_line :: "bool \<Rightarrow> string \<Rightarrow> string list" where
  "debug_line isDebug s = (if isDebug then [s] else [])"

text \<open>
  The loop over \<^verbatim>\<open>dataRegexes\<close>. Its result is \<^verbatim>\<open>capturedData\<close> (initially \<^verbatim>\<open>null\<close>) and
  the console lines written (the first argument of each \<^verbatim>\<open>console\<close> call). The \<^verbatim>\<open>try\<close>
  block holds \<^verbatim>\<open>JSON.parse\<close> and the shape tests; the \<^verbatim>\<open>catch\<close> goes on to the next
  pattern.
\<close>

fun tier1 :: "(string \<Rightarrow> exn + jsval) \<Rightarrow> bool \<Rightarrow>
    (string option \<times> string option) option list \<Rightarrow> jsval \<times> string list" where
  "tier1 parse isDebug [] = (Null, [])"
| "tier1 parse isDebug (m # ms) =
     (case matched_text m of
        None \<Rightarrow> tier1 parse isDebug ms
      | Some jsonStr \<Rightarrow>
          (case parse jsonStr of
             Inl parseError \<Rightarrow>
               (case tier1 parse isDebug ms of
                  (v, l) \<Rightarrow>
                    (v, debug_line isDebug ''Error parsing JSON from regex match:'' @ l))
           | Inr jsonData \<Rightarrow>
               (case probe jsonData of
                  Some v \<Rightarrow> (v, debug_line isDebug ''Found potential data with regex:'')
                | None \<Rightarrow>
                    (case tier1 parse isDebug ms of
                       (v, l) \<Rightarrow>
                         (v, debug_line isDebug ''Found potential data with regex:'' @ l)))))"

text \<open>
  Tier 2. The loop over the JSON-LD scripts: \<^verbatim>\<open>JSON.parse($(script).html() || '{}')\<close>, then
  \<^verbatim>\<open>json.mainEntityOfPage?.["@type"] === "ProfilePage"\<close>, inside a \<^verbatim>\<open>try\<close> whose \<^verbatim>\<open>catch\<close>
  ignores the error. The result is \<^verbatim>\<open>ldJsonData\<close>, initially \<^verbatim>\<open>null\<close>.
\<close>

definition script_text :: "string option \<Rightarrow> string" where
  "script_text content =
     (case content of None \<Rightarrow> ''{}'' | Some t \<Rightarrow> if t = [] then ''{}'' else t)"

definition is_profile_page :: "jsval \<Rightarrow> exn + bool" where
  "is_profile_page json =
     and_then (read_prop json ''mainEntityOfPage'')
       (\<lambda>m. Inr (read_opt m ''@type'' = Str ''ProfilePage''))"

fun find_ld_json :: "(string \<Rightarrow> exn + jsval) \<Rightarrow> string option list \<Rightarrow> jsval" where
  "find_ld_json parse [] = Null"
| "find_ld_json parse (script # scripts) =
     (case parse (script_text script) of
        Inl e \<Rightarrow> find_ld_json parse scripts
      | Inr json \<Rightarrow>
          (case is_profile_page json of
             Inl e \<Rightarrow> find_ld_json parse scripts
           | Inr found \<Rightarrow> if found then json else find_ld_json parse scripts))"

text \<open>
  \<^verbatim>\<open>ldJsonData.interactionStatistic?.find(stat => stat.name === name)\<close>: \<^verbatim>\<open>undefined\<close> when
  the list is missing, a \<^verbatim>\<open>TypeError\<close> when it is present and not an array or when an
  element before the match is \<^verbatim>\<open>null\<close>.
\<close>

fun find_named :: "string \<Rightarrow> jsval list \<Rightarrow> exn + jsval" where
  "find_named name [] = Inr Undefined"
| "find_named name (stat # stats) =
     and_then (read_prop stat ''name'')
       (\<lambda>n. if n = Str name then Inr stat else find_named name stats)"

fun find_stat :: "string \<Rightarrow> jsval \<Rightarrow> exn + jsval" where
  "find_stat name Undefined = Inr Undefined"
| "find_stat name Null = Inr Undefined"
| "find_stat name (Arr stats) = find_named name stats"
| "find_stat name v = Inl (not_a_function ''ldJsonData.interactionStatistic?.find'')"

definition meta_username :: "html_page \<Rightarrow> jsval" where
  "meta_username page =
     js_or (case og_title page of
              None \<Rightarrow> Undefined
            | Some t \<Rightarrow> Str (before_first bullet_sep t))
       (js_or (case og_url page of
                 None \<Rightarrow> Undefined
               | Some u \<Rightarrow> last_nonempty (split_char CHR ''/'' u))
          (Str []))"

definition meta_picture :: "html_page \<Rightarrow> jsval" where
  "meta_picture page = js_or (str_or_undefined (og_image page)) (Str [])"

definition tier2 :: "(string \<Rightarrow> exn + jsval) \<Rightarrow> html_page \<Rightarrow> exn + InstagramUserData" where
  "tier2 parse page =
     (let uname = meta_username page;
          profilePicture = meta_picture page;
          ldJsonData = find_ld_json parse (ld_json page)
      in
      if truthy ldJsonData then
        and_then (find_stat ''Followers'' (read_opt ldJsonData ''interactionStatistic''))
          (\<lambda>followersStats.
        and_then (find_stat ''Posts'' (read_opt ldJsonData ''interactionStatistic''))
          (\<lambda>postsStats.
        and_then (find_stat ''Following'' (read_opt ldJsonData ''interactionStatistic''))
          (\<lambda>followingStats.
          Inr \<lparr> username = js_or (read_opt ldJsonData ''name'') (js_or uname (Str [])),
                fullName = js_or (read_opt ldJsonData ''name'') (Str []),
                biography = js_or (read_opt ldJsonData ''description'') (Str []),
                profilePicture =
                  js_or (read_opt ldJsonData ''image'') (js_or profilePicture (Str [])),
                postsCount = js_or (read_opt postsStats ''userInteractionCount'') (Num 0),
                followersCount =
                  js_or (read_opt followersStats ''userInteractionCount'') (Num 0),
                followingCount =
                  js_or (read_opt followingStats ''userInteractionCount'') (Num 0),
                posts = [] \<rparr>)))
      else
        Inr \<lparr> username = js_or uname (Str []),
              fullName = Str [],
              biography = Str [],
              profilePicture = js_or profilePicture (Str []),
              postsCount = Num 0,
              followersCount = Num 0,
              followingCount = Num 0,
              posts = [] \<rparr>)"

text \<open>
  \<^verbatim>\<open>extractInstagramData(html, isDebug)\<close>: Tier 1, then \<^verbatim>\<open>processUserData\<close> on a truthy
  capture (outside the loop's \<^verbatim>\<open>try\<close>), else Tier 2. The console lines are kept also
  when the function throws.
\<close>

definition extractInstagramData ::
  "(string \<Rightarrow> exn + jsval) \<Rightarrow> int \<Rightarrow> html_page \<Rightarrow> bool \<Rightarrow>
     (exn + InstagramUserData) \<times> string list" where
  "extractInstagramData parse now page isDebug =
     (case tier1 parse isDebug (script_matches page) of
        (capturedData, l) \<Rightarrow>
          (if truthy capturedData then processUserData now capturedData
           else tier2 parse page, l))"

text \<open>
  The earlier \<^verbatim>\<open>extractInstagramData\<close> kept in \<^verbatim>\<open>instagramRateLimiter.ts\<close>: the first JSON-LD
  script whose \<^verbatim>\<open>@type\<close> is \<^verbatim>\<open>Person\<close> gives the record, with
  \<^verbatim>\<open>username: json.alternateName.replace('@', '')\<close>; \<^verbatim>\<open>null\<close> when there is none.
  \<^verbatim>\<open>replace\<close> with a string pattern removes the first occurrence only.
\<close>

fun remove_first :: "char \<Rightarrow> string \<Rightarrow> string" where
  "remove_first c [] = []"
| "remove_first c (x # xs) = (if x = c then xs else x # remove_first c xs)"

fun replace_at :: "jsval \<Rightarrow> exn + jsval" where
  "replace_at (Str s) = Inr (Str (remove_first CHR ''@'' s))"
| "replace_at Undefined = Inl (cannot_read ''replace'')"
| "replace_at Null = Inl (cannot_read ''replace'')"
| "replace_at v = Inl (not_a_function ''json.alternateName.replace'')"

definition person_record :: "jsval \<Rightarrow> exn + InstagramUserData option" where
  "person_record json =
     and_then (read_prop json ''@type'') (\<lambda>t.
       if t = Str ''Person'' then
         and_then (replace_at (read_opt json ''alternateName'')) (\<lambda>u.
           Inr (Some \<lparr> username = u,
                       fullName = read_opt json ''name'',
                       biography = read_opt json ''description'',
                       profilePicture = read_opt json ''image'',
                       postsCount = Num 0,
                       followersCount = Num 0,
                       followingCount = Num 0,
                       posts = [] \<rparr>))
       else Inr None)"

fun extractInstagramData_person ::
  "(string \<Rightarrow> exn + jsval) \<Rightarrow> string option list \<Rightarrow> InstagramUserData option" where
  "extractInstagramData_person parse [] = None"
| "extractInstagramData_person parse (content # scripts) =
     (case content of
        None \<Rightarrow> extractInstagramData_person parse scripts
      | Some t \<Rightarrow>
          if t = [] then extractInstagramData_person parse scripts
          else (case and_then (parse t) person_record of
                  Inr (Some r) \<Rightarrow> Some r
                | _ \<Rightarrow> extractInstagramData_person parse scripts))"

section \<open>The response cache\<close>

text \<open>
  \<^verbatim>\<open>const cache = new Map<string, CacheData>()\<close> with \<^verbatim>\<open>CacheData = {data, timestamp}\<close>, a
  module-level variable: the handlers take the map and return the updated one. Times are
  \<^verbatim>\<open>Date.now()\<close> in milliseconds.
\<close>

type_synonym CacheData = "InstagramUserData \<times> int"

type_synonym cache = "string \<Rightarrow> CacheData option"

definition CACHE_DURATION :: int where
  "CACHE_DURATION = 10 * 60 * 1000"

definition getCachedData :: "cache \<Rightarrow> int \<Rightarrow> string \<Rightarrow> InstagramUserData option \<times> cache" where
  "getCachedData c now key =
     (case c key of
        None \<Rightarrow> (None, c)
      | Some (dat, stamp) \<Rightarrow>
          if now - stamp < CACHE_DURATION then (Some dat, c)
          else (None, c(key := None)))"

section \<open>The orchestrator: \<^verbatim>\<open>GET\<close> of the proxy route\<close>

text \<open>
  The environment of one request: \<open>axios_get\<close> is the upstream (\<^verbatim>\<open>response.data\<close> of the
  reply to a call, or the error \<^verbatim>\<open>axios.get\<close> throws), \<open>json_parse\<close> is \<^verbatim>\<open>JSON.parse\<close>,
  \<open>html_view\<close> is what the regular expressions and cheerio return for a document, and
  \<open>date_now\<close> is the clock, read once per request. The header sets of the calls are
  constants of the source and are left out.
\<close>

datatype call =
    GraphQL string
  | Alternative string
  | Scraping string
  | WebProfileInfo string

record env =
  axios_get :: "call \<Rightarrow> exn + jsval"
  json_parse :: "string \<Rightarrow> exn + jsval"
  html_view :: "string \<Rightarrow> html_page"
  date_now :: int

record request =
  username_param :: "string option"
  debug_param :: "string option"

datatype response_body =
    Profile InstagramUserData
  | ErrorOnly string
  | Failure string string "string list" string
  | FetchError string string

text \<open>
  What a request leaves behind: the status and the JSON body of the reply, the cache, the
  upstream calls made, in order, and the console lines written.
\<close>

record outcome =
  status :: nat
  body :: response_body
  cache_after :: cache
  calls :: "call list"
  console :: "string list"

text \<open>
  Every thrown value is an \<open>exn\<close>, so the strategies' \<^verbatim>\<open>catch\<close> blocks cannot throw and
  the outer \<^verbatim>\<open>catch\<close> of \<^verbatim>\<open>GET\<close> (\<^verbatim>\<open>'Instagram proxy error'\<close>) is never entered.

  The body of each strategy's \<^verbatim>\<open>try\<close> block up to its \<^verbatim>\<open>return\<close>: \<open>Inr (Some d)\<close> when
  it returns the record \<open>d\<close>, \<open>Inr None\<close> when the block ends without returning (the
  reply holds no user object, and nothing is thrown), \<open>Inl e\<close> when it throws.
\<close>

definition method1 :: "env \<Rightarrow> string \<Rightarrow> exn + InstagramUserData option" where
  "method1 e u =
     and_then (axios_get e (GraphQL u)) (\<lambda>dat.
       let userData = read_opt (read_opt dat ''data'') ''user'' in
       if truthy userData
       then and_then (processUserData (date_now e) userData) (\<lambda>d. Inr (Some d))
       else Inr None)"

definition method2 :: "env \<Rightarrow> string \<Rightarrow> exn + InstagramUserData option" where
  "method2 e u =
     and_then (axios_get e (Alternative u)) (\<lambda>responseData.
       let userData = read_opt (read_opt responseData ''graphql'') ''user'' in
       if truthy responseData \<and> truthy userData
       then and_then (processUserData (date_now e) userData) (\<lambda>d. Inr (Some d))
       else Inr None)"

text \<open>
  Strategy C: \<^verbatim>\<open>html.match\<close> needs a string; then \<^verbatim>\<open>extractInstagramData\<close>, and a record
  with a falsy \<^verbatim>\<open>username\<close> is turned into a thrown \<^verbatim>\<open>Error\<close>.
\<close>

definition method3 :: "env \<Rightarrow> string \<Rightarrow> bool \<Rightarrow> (exn + InstagramUserData) \<times> string list" where
  "method3 e u isDebugMode =
     (case axios_get e (Scraping u) of
        Inl err \<Rightarrow> (Inl err, [])
      | Inr (Str html) \<Rightarrow>
          (case extractInstagramData (json_parse e) (date_now e) (html_view e html) isDebugMode of
             (Inl err, l) \<Rightarrow> (Inl err, l)
           | (Inr jsonData, l) \<Rightarrow>
               if truthy (username jsonData) then (Inr jsonData, l)
               else (Inl (Error ''Could not extract user data from HTML''), l))
      | Inr Undefined \<Rightarrow> (Inl (cannot_read ''match''), [])
      | Inr Null \<Rightarrow> (Inl (cannot_read ''match''), [])
      | Inr v \<Rightarrow> (Inl (not_a_function ''html.match''), []))"

definition found :: "env \<Rightarrow> cache \<Rightarrow> string \<Rightarrow> InstagramUserData \<Rightarrow> call list \<Rightarrow>
    string list \<Rightarrow> outcome" where
  "found e c cacheKey d cs l =
     \<lparr> status = 200, body = Profile d,
       cache_after = c(cacheKey \<mapsto> (d, date_now e)), calls = cs, console = l \<rparr>"

text \<open>The \<^verbatim>\<open>catch\<close> of a strategy: the message pushed on \<^verbatim>\<open>errors\<close>, if the block threw.\<close>

definition pushed :: "string \<Rightarrow> exn + 'a \<Rightarrow> string list" where
  "pushed prefix r = (case r of Inl err \<Rightarrow> [prefix @ message err] | Inr v \<Rightarrow> [])"

definition all_failed_message :: string where
  "all_failed_message = ''Instagram data extraction failed. The user profile might be private, not exist, or Instagram may have updated their API.''"

text \<open>
  The three \<^verbatim>\<open>try\<close> blocks of \<^verbatim>\<open>GET\<close>, the last one first. Each takes the cache after the
  lookup, the \<^verbatim>\<open>errors\<close> array and the console lines so far. \<open>try_scraping\<close> is Method 3
  and the reply that follows it when all methods fail.
\<close>

definition try_scraping :: "env \<Rightarrow> cache \<Rightarrow> string \<Rightarrow> bool \<Rightarrow> string list \<Rightarrow>
    string list \<Rightarrow> outcome" where
  "try_scraping e c1 u isDebugMode errors l2 =
     (case method3 e u isDebugMode of
        (r3, l) \<Rightarrow>
          (let l3 = l2 @ debug_line isDebugMode (''Attempting HTML scraping for '' @ u) @ l
                    @ (if isDebugMode then pushed ''HTML scraping error: '' r3 else [])
           in
           case r3 of
             Inr jsonData \<Rightarrow>
               found e c1 (''instagram-'' @ u) jsonData
                 [GraphQL u, Alternative u, Scraping u] l3
           | Inl err \<Rightarrow>
               \<lparr> status = 500,
                 body = Failure ''Failed to fetch Instagram data using any available method''
                          u (errors @ pushed ''HTML scraping error: '' r3) all_failed_message,
                 cache_after = c1,
                 calls = [GraphQL u, Alternative u, Scraping u],
                 console = l3 \<rparr>))"

definition try_alternative :: "env \<Rightarrow> cache \<Rightarrow> string \<Rightarrow> bool \<Rightarrow> string list \<Rightarrow>
    string list \<Rightarrow> outcome" where
  "try_alternative e c1 u isDebugMode errors l1 =
     (let r2 = method2 e u;
          l2 = l1 @ debug_line isDebugMode (''Attempting Instagram alternative API for '' @ u)
               @ (if isDebugMode then pushed ''Alternative API error: '' r2 else [])
      in
      case r2 of
        Inr (Some processedData) \<Rightarrow>
          found e c1 (''instagram-'' @ u) processedData [GraphQL u, Alternative u] l2
      | _ \<Rightarrow>
          try_scraping e c1 u isDebugMode
            (errors @ pushed ''Alternative API error: '' r2) l2)"

definition try_graphql :: "env \<Rightarrow> cache \<Rightarrow> string \<Rightarrow> bool \<Rightarrow> outcome" where
  "try_graphql e c1 u isDebugMode =
     (let r1 = method1 e u;
          l1 = debug_line isDebugMode (''Attempting Instagram GraphQL API for '' @ u)
               @ (if isDebugMode then pushed ''GraphQL API error: '' r1 else [])
      in
      case r1 of
        Inr (Some processedData) \<Rightarrow>
          found e c1 (''instagram-'' @ u) processedData [GraphQL u] l1
      | _ \<Rightarrow>
          try_alternative e c1 u isDebugMode (pushed ''GraphQL API error: '' r1) l1)"

definition GET :: "env \<Rightarrow> cache \<Rightarrow> request \<Rightarrow> outcome" where
  "GET e c req =
     (case username_param req of
        None \<Rightarrow>
          \<lparr> status = 400, body = ErrorOnly ''Username is required'',
            cache_after = c, calls = [], console = [] \<rparr>
      | Some u \<Rightarrow>
          if u = [] then
            \<lparr> status = 400, body = ErrorOnly ''Username is required'',
              cache_after = c, calls = [], console = [] \<rparr>
          else
            (case getCachedData c (date_now e) (''instagram-'' @ u) of
               (Some cachedData, c1) \<Rightarrow>
                 \<lparr> status = 200, body = Profile cachedData, cache_after = c1, calls = [],
                   console = [''Serving cached Instagram data for '' @ u] \<rparr>
             | (None, c1) \<Rightarrow> try_graphql e c1 u (debug_param req = Some ''true'')))"

section \<open>The single-endpoint handler\<close>

text \<open>
  The route file with one upstream call (\<^verbatim>\<open>i.instagram.com\<close>) has its own \<^verbatim>\<open>GET\<close> and
  \<^verbatim>\<open>getCached\<close>; they are \<open>GET_single\<close> and \<open>getCached\<close> here. It trims the parameter:
  \<^verbatim>\<open>const username = url.searchParams.get('username')?.trim()\<close>.
\<close>

definition getCached :: "cache \<Rightarrow> int \<Rightarrow> string \<Rightarrow> InstagramUserData option \<times> cache" where
  "getCached c now key =
     (case c key of
        Some (dat, ts) \<Rightarrow>
          if now - ts < CACHE_DURATION then (Some dat, c) else (None, c(key := None))
      | None \<Rightarrow> (None, c(key := None)))"

definition make_post_single :: "jsval \<Rightarrow> exn + InstagramPost" where
  "make_post_single edge =
     and_then (read_prop edge ''node'') (\<lambda>n.
     and_then (read_prop n ''id'') (\<lambda>node_id.
       Inr \<lparr> post_id = node_id,
             shortcode = read_opt n ''shortcode'',
             thumbnailUrl = js_or (read_opt n ''thumbnail_src'') (Str []),
             displayUrl = js_or (read_opt n ''display_url'') (Str []),
             isVideo = read_opt n ''is_video'',
             caption =
               js_or (read_opt (read_opt (first_elem
                  (read_opt (read_opt n ''edge_media_to_caption'') ''edges'')) ''node'') ''text'')
                 (Str []),
             timestamp = read_opt n ''taken_at_timestamp'',
             likeCount = js_or (read_opt (read_opt n ''edge_liked_by'') ''count'') (Num 0),
             commentCount =
               js_or (read_opt (read_opt n ''edge_media_to_comment'') ''count'') (Num 0) \<rparr>))"

text \<open>\<^verbatim>\<open>(edges || []).map(f)\<close>: only an array has \<^verbatim>\<open>map\<close>.\<close>

fun map_edges :: "(jsval \<Rightarrow> exn + 'b) \<Rightarrow> jsval \<Rightarrow> exn + 'b list" where
  "map_edges f (Arr xs) = for_each f xs"
| "map_edges f v = Inl (not_a_function ''map'')"

definition transform_single :: "jsval \<Rightarrow> exn + InstagramUserData" where
  "transform_single dat =
     and_then (read_prop dat ''data'') (\<lambda>d.
     and_then (read_prop d ''user'') (\<lambda>user.
     and_then (read_prop user ''username'') (\<lambda>uname.
     and_then
       (map_edges make_post_single
          (js_or (read_opt (read_opt user ''edge_owner_to_timeline_media'') ''edges'') (Arr [])))
       (\<lambda>ps.
       Inr \<lparr> username = uname,
             fullName = read_opt user ''full_name'',
             biography = read_opt user ''biography'',
             profilePicture =
               js_or (read_opt user ''profile_pic_url_hd'') (read_opt user ''profile_pic_url''),
             postsCount =
               js_or (read_opt (read_opt user ''edge_owner_to_timeline_media'') ''count'') (Num 0),
             followersCount =
               js_or (read_opt (read_opt user ''edge_followed_by'') ''count'') (Num 0),
             followingCount = js_or (read_opt (read_opt user ''edge_follow'') ''count'') (Num 0),
             posts = ps \<rparr>))))"

definition GET_single :: "env \<Rightarrow> cache \<Rightarrow> request \<Rightarrow> outcome" where
  "GET_single e c req =
     (case map_option trim (username_param req) of
        None \<Rightarrow>
          \<lparr> status = 400, body = ErrorOnly ''Username is required'',
            cache_after = c, calls = [], console = [] \<rparr>
      | Some u \<Rightarrow>
          if u = [] then
            \<lparr> status = 400, body = ErrorOnly ''Username is required'',
              cache_after = c, calls = [], console = [] \<rparr>
          else
            (case getCached c (date_now e) (''ig-'' @ u) of
               (Some cached, c1) \<Rightarrow>
                 \<lparr> status = 200, body = Profile cached, cache_after = c1, calls = [],
                   console = [] \<rparr>
             | (None, c1) \<Rightarrow>
                 (case and_then (axios_get e (WebProfileInfo u)) transform_single of
                    Inr result \<Rightarrow>
                      \<lparr> status = 200, body = Profile result,
                        cache_after = c1(''ig-'' @ u \<mapsto> (result, date_now e)),
                        calls = [WebProfileInfo u], console = [] \<rparr>
                  | Inl err \<Rightarrow>
                      \<lparr> status = 500,
                        body = FetchError ''Failed to fetch Instagram data'' (message err),
                        cache_after = c1, calls = [WebProfileInfo u],
                        console = [''Instagram fetch error:''] \<rparr>)))"

section \<open>The rate limiter: \<^verbatim>\<open>middleware\<close>\<close>

text \<open>
  \<^verbatim>\<open>new LRUCache<string, number | boolean>({ max: 500, ttl: 1000 * 60 * 15 })\<close>. The
  library is not part of the repository; it is modelled as the list of its entries, the
  most recently used first, each with the time it was set and its time to live:
  \<^item> \<^verbatim>\<open>get\<close> returns \<^verbatim>\<open>undefined\<close> for a missing key, deletes and returns \<^verbatim>\<open>undefined\<close> for an
    entry older than its time to live, and otherwise returns the value and makes the
    entry the most recently used (its age is kept);
  \<^item> \<^verbatim>\<open>set\<close> writes the value with a fresh time to live and makes the entry the most
    recently used; a new key in a full cache evicts the least recently used entry.
  These are the library's defaults, which the source does not change (\<^verbatim>\<open>allowStale\<close>,
  \<^verbatim>\<open>updateAgeOnGet\<close> and \<^verbatim>\<open>noUpdateTTL\<close> are off). The clock is a parameter \<open>now\<close>, in
  milliseconds.
\<close>

datatype cached = Count int | Flag bool

record lru_entry =
  entry_key :: string
  entry_value :: cached
  entry_start :: int
  entry_ttl :: int

type_synonym lru = "lru_entry list"

definition LRU_MAX :: nat where
  "LRU_MAX = 500"

definition LRU_TTL :: int where
  "LRU_TTL = 1000 * 60 * 15"

definition REQUESTS_PER_IP_LIMIT :: int where
  "REQUESTS_PER_IP_LIMIT = 20"

definition COOLDOWN_PERIOD :: int where
  "COOLDOWN_PERIOD = 1000 * 60 * 5"

definition is_stale :: "lru_entry \<Rightarrow> int \<Rightarrow> bool" where
  "is_stale en now = (now - entry_start en > entry_ttl en)"

definition lru_find :: "string \<Rightarrow> lru \<Rightarrow> lru_entry option" where
  "lru_find k c = find (\<lambda>en. entry_key en = k) c"

definition lru_delete :: "string \<Rightarrow> lru \<Rightarrow> lru" where
  "lru_delete k c = filter (\<lambda>en. entry_key en \<noteq> k) c"

definition lru_get :: "lru \<Rightarrow> int \<Rightarrow> string \<Rightarrow> cached option \<times> lru" where
  "lru_get c now k =
     (case lru_find k c of
        None \<Rightarrow> (None, c)
      | Some en \<Rightarrow>
          if is_stale en now then (None, lru_delete k c)
          else (Some (entry_value en), en # lru_delete k c))"

definition lru_set :: "lru \<Rightarrow> int \<Rightarrow> string \<Rightarrow> cached \<Rightarrow> int \<Rightarrow> lru" where
  "lru_set c now k v t =
     (let en = \<lparr> entry_key = k, entry_value = v, entry_start = now, entry_ttl = t \<rparr> in
      if lru_find k c \<noteq> None then en # lru_delete k c
      else if length c \<ge> LRU_MAX then en # butlast c
      else en # c)"

text \<open>Truthiness and \<^verbatim>\<open>v || 0\<close> on what \<^verbatim>\<open>cache.get\<close> returns; \<^verbatim>\<open>true\<close> counts as 1 in arithmetic.\<close>

fun cached_truthy :: "cached option \<Rightarrow> bool" where
  "cached_truthy None = False"
| "cached_truthy (Some (Count n)) = (n \<noteq> 0)"
| "cached_truthy (Some (Flag b)) = b"

definition or_zero :: "cached option \<Rightarrow> cached" where
  "or_zero v = (case v of Some x \<Rightarrow> if cached_truthy v then x else Count 0 | None \<Rightarrow> Count 0)"

fun to_number :: "cached \<Rightarrow> int" where
  "to_number (Count n) = n"
| "to_number (Flag b) = (if b then 1 else 0)"

text \<open>
  The request as the middleware reads it: the path and the \<^verbatim>\<open>x-forwarded-for\<close> header.
  \<^verbatim>\<open>forwarded ? forwarded.split(',')[0].trim() : '127.0.0.1'\<close>.
\<close>

record mw_request =
  pathname :: string
  forwarded :: "string option"

definition starts_with :: "string \<Rightarrow> string \<Rightarrow> bool" where
  "starts_with p s = (take (length p) s = p)"

definition client_ip :: "mw_request \<Rightarrow> string" where
  "client_ip req =
     (case forwarded req of
        None \<Rightarrow> ''127.0.0.1''
      | Some f \<Rightarrow> if f = [] then ''127.0.0.1'' else trim (takeWhile (\<lambda>ch. ch \<noteq> CHR '','') f))"

definition cooldownKey :: "string \<Rightarrow> string" where
  "cooldownKey ip = ''cooldown-'' @ ip"

definition requestKey :: "string \<Rightarrow> string" where
  "requestKey ip = ''requests-'' @ ip"

text \<open>
  The reply of the middleware: \<open>Next\<close> is \<^verbatim>\<open>NextResponse.next()\<close> with no header added,
  \<open>Accepted limit remaining\<close> is \<^verbatim>\<open>NextResponse.next()\<close> with the two \<^verbatim>\<open>X-RateLimit\<close>
  headers, \<open>Rejected status error message\<close> is the JSON reply that ends the request.
\<close>

datatype verdict =
    Next
  | Accepted int int
  | Rejected nat string string

definition middleware :: "lru \<Rightarrow> int \<Rightarrow> mw_request \<Rightarrow> verdict \<times> lru" where
  "middleware c now req =
     (if \<not> starts_with ''/api/instagram-proxy'' (pathname req) then (Next, c)
      else
        (let ip = client_ip req in
         case lru_get c now (cooldownKey ip) of
           (cooldown, c1) \<Rightarrow>
             if cached_truthy cooldown then
               (Rejected 429 ''Too many requests'' ''Please try again later'', c1)
             else
               (case lru_get c1 now (requestKey ip) of
                  (count, c2) \<Rightarrow>
                    (let currentRequests = to_number (or_zero count);
                         c3 = lru_set c2 now (requestKey ip) (Count (currentRequests + 1)) LRU_TTL
                     in
                     if currentRequests \<ge> REQUESTS_PER_IP_LIMIT then
                       (Rejected 429 ''Rate limit exceeded''
                          ''Too many requests, please try again later'',
                        lru_set c3 now (cooldownKey ip) (Flag True) COOLDOWN_PERIOD)
                     else
                       (Accepted REQUESTS_PER_IP_LIMIT
                          (REQUESTS_PER_IP_LIMIT - currentRequests - 1), c3)))))"

text \<open>
  The same request arriving at the times \<open>ts\<close>, one after the other: the replies and the
  cache left behind.
\<close>

fun burst :: "lru \<Rightarrow> mw_request \<Rightarrow> int list \<Rightarrow> verdict list \<times> lru" where
  "burst c req [] = ([], c)"
| "burst c req (t # ts) =
     (case middleware c t req of
        (v, c') \<Rightarrow> (case burst c' req ts of (vs, c'') \<Rightarrow> (v # vs, c'')))"

text \<open>The entries the middleware writes for a client.\<close>

definition request_entry :: "string \<Rightarrow> int \<Rightarrow> int \<Rightarrow> lru_entry" where
  "request_entry ip n t =
     \<lparr> entry_key = requestKey ip, entry_value = Count n, entry_start = t,
       entry_ttl = LRU_TTL \<rparr>"

definition cooldown_entry :: "string \<Rightarrow> int \<Rightarrow> lru_entry" where
  "cooldown_entry ip t =
     \<lparr> entry_key = cooldownKey ip, entry_value = Flag True, entry_start = t,
       entry_ttl = COOLDOWN_PERIOD \<rparr>"

text \<open>What the middleware would read for a client at a time, without touching the cache.\<close>

definition in_cooldown :: "lru \<Rightarrow> int \<Rightarrow> string \<Rightarrow> bool" where
  "in_cooldown c now ip = cached_truthy (fst (lru_get c now (cooldownKey ip)))"

definition request_count :: "lru \<Rightarrow> int \<Rightarrow> string \<Rightarrow> int" where
  "request_count c now ip = to_number (or_zero (fst (lru_get c now (requestKey ip))))"

section \<open>Well-typed upstream data\<close>

text \<open>
  The part of the interface \<^verbatim>\<open>InstagramRawUserData\<close> that \<^verbatim>\<open>processUserData\<close> relies on: the
  user is an object; \<^verbatim>\<open>edge_owner_to_timeline_media\<close>, when present, is an object whose
  \<^verbatim>\<open>edges\<close>, when present, is an array of objects with an object \<^verbatim>\<open>node\<close>; and a node's
  \<^verbatim>\<open>edge_media_to_caption\<close>, when present, has an array \<^verbatim>\<open>edges\<close>.
\<close>

fun is_object :: "jsval \<Rightarrow> bool" where
  "is_object (Obj ps) = True"
| "is_object v = False"

definition typed_node :: "jsval \<Rightarrow> bool" where
  "typed_node node =
     (is_object node \<and>
      (case read_opt node ''edge_media_to_caption'' of
         Undefined \<Rightarrow> True
       | c \<Rightarrow> is_object c \<and> isArray (read_opt c ''edges'')))"

definition typed_edge :: "jsval \<Rightarrow> bool" where
  "typed_edge edge = (is_object edge \<and> typed_node (read_opt edge ''node''))"

definition typed_user :: "jsval \<Rightarrow> bool" where
  "typed_user userData =
     (is_object userData \<and>
      (case read_opt userData ''edge_owner_to_timeline_media'' of
         Undefined \<Rightarrow> True
       | media \<Rightarrow>
           is_object media \<and>
           (case read_opt media ''edges'' of
              Undefined \<Rightarrow> True
            | Arr xs \<Rightarrow> list_all typed_edge xs
            | _ \<Rightarrow> False)))"

section \<open>Sample inputs\<close>

text \<open>
  A user object on its own, the same object under six nested objects, and the same
  object as the second element of an \<^verbatim>\<open>items\<close> array.
\<close>

definition plain_user :: jsval where
  "plain_user = Obj [(''username'', Str ''jane''), (''biography'', Str ''hi'')]"

definition buried_user :: jsval where
  "buried_user =
     Obj [(''a'', Obj [(''b'', Obj [(''c'', Obj [(''d'', Obj [(''e'', Obj [(''f'',
       plain_user)])])])])])]"

definition listed_user :: jsval where
  "listed_user = Obj [(''items'', Arr [Num 1, plain_user])]"

text \<open>
  A user object as the structured endpoints return it: 42 posts counted, two of them
  listed, the second without \<^verbatim>\<open>taken_at_timestamp\<close>.
\<close>

definition sample_user :: jsval where
  "sample_user =
     Obj [(''username'', Str ''jane''), (''full_name'', Str ''Jane''),
          (''edge_owner_to_timeline_media'',
           Obj [(''count'', Num 42),
                (''edges'',
                 Arr [Obj [(''node'', Obj [(''id'', Str ''p1''), (''shortcode'', Str ''abc''),
                                         (''taken_at_timestamp'', Num 1600000000)])],
                      Obj [(''node'', Obj [(''id'', Str ''p2''), (''shortcode'', Str ''def'')])]])])]"

definition sample_post1 :: InstagramPost where
  "sample_post1 =
     \<lparr> post_id = Str ''p1'', shortcode = Str ''abc'', thumbnailUrl = Str [],
       displayUrl = Str [], isVideo = Bool False, caption = Str [],
       timestamp = Num 1600000000, likeCount = Num 0, commentCount = Num 0 \<rparr>"

definition sample_post2 :: InstagramPost where
  "sample_post2 =
     \<lparr> post_id = Str ''p2'', shortcode = Str ''def'', thumbnailUrl = Str [],
       displayUrl = Str [], isVideo = Bool False, caption = Str [],
       timestamp = Num 1700000000, likeCount = Num 0, commentCount = Num 0 \<rparr>"

definition sample_profile :: InstagramUserData where
  "sample_profile =
     \<lparr> username = Str ''jane'', fullName = Str ''Jane'', biography = Str [],
       profilePicture = Str [], postsCount = Num 42, followersCount = Num 0,
       followingCount = Num 0, posts = [sample_post1, sample_post2] \<rparr>"

text \<open>
  A user object whose two posts carry a \<^verbatim>\<open>taken_at_timestamp\<close> that is no integer: the
  number 1600000000.5, which the interface \<^verbatim>\<open>InstagramMediaNode\<close> admits, and the string
  \<^verbatim>\<open>"soon"\<close>, which nothing checks when the upstream JSON is parsed.
\<close>

definition odd_user :: jsval where
  "odd_user =
     Obj [(''username'', Str ''jane''),
          (''edge_owner_to_timeline_media'',
           Obj [(''count'', Num 2),
                (''edges'',
                 Arr [Obj [(''node'', Obj [(''id'', Str ''p3''), (''shortcode'', Str ''ghi''),
                                         (''taken_at_timestamp'', Num (3200000001 / 2))])],
                      Obj [(''node'', Obj [(''id'', Str ''p4''), (''shortcode'', Str ''jkl''),
                                         (''taken_at_timestamp'', Str ''soon'')])]])])]"

definition odd_post1 :: InstagramPost where
  "odd_post1 =
     \<lparr> post_id = Str ''p3'', shortcode = Str ''ghi'', thumbnailUrl = Str [],
       displayUrl = Str [], isVideo = Bool False, caption = Str [],
       timestamp = Num (3200000001 / 2), likeCount = Num 0, commentCount = Num 0 \<rparr>"

definition odd_post2 :: InstagramPost where
  "odd_post2 =
     \<lparr> post_id = Str ''p4'', shortcode = Str ''jkl'', thumbnailUrl = Str [],
       displayUrl = Str [], isVideo = Bool False, caption = Str [],
       timestamp = Str ''soon'', likeCount = Num 0, commentCount = Num 0 \<rparr>"

definition odd_profile :: InstagramUserData where
  "odd_profile =
     \<lparr> username = Str ''jane'', fullName = Str [], biography = Str [],
       profilePicture = Str [], postsCount = Num 2, followersCount = Num 0,
       followingCount = Num 0, posts = [odd_post1, odd_post2] \<rparr>"

text \<open>
  A stand-in for \<^verbatim>\<open>JSON.parse\<close> on the texts of the samples: two documents parse, any
  other text is a syntax error.
\<close>

definition sample_parse :: "string \<Rightarrow> exn + jsval" where
  "sample_parse s =
     (if s = ''{\"user\":{\"username\":\"jane\",\"full_name\":\"Jane\"}}''
      then Inr (Obj [(''user'', Obj [(''username'', Str ''jane''), (''full_name'', Str ''Jane'')])])
      else if s = ''{}'' then Inr (Obj [])
      else Inl (SyntaxError ''Unexpected end of JSON input''))"

text \<open>
  A page whose \<^verbatim>\<open>_sharedData\<close> script is cut off and whose inline user object is intact,
  and a page with the cut-off script only and no metadata.
\<close>

definition sample_page :: html_page where
  "sample_page =
     \<lparr> script_matches =
         [Some (Some ''{\"entry_data\":{\"ProfilePage\":[{'', None), None, None,
          Some (Some ''{\"user\":{\"username\":\"jane\",\"full_name\":\"Jane\"}}'', None), None],
       og_title = None, og_url = None, og_image = None, ld_json = [] \<rparr>"

definition broken_page :: html_page where
  "broken_page =
     \<lparr> script_matches =
         [Some (Some ''{\"entry_data\":{\"ProfilePage\":[{'', None), None, None, None, None],
       og_title = None, og_url = None, og_image = None, ld_json = [] \<rparr>"

text \<open>A pattern whose text reaches \<^verbatim>\<open>JSON.parse\<close> and parses.\<close>

definition parses ::
  "(string \<Rightarrow> exn + jsval) \<Rightarrow> (string option \<times> string option) option \<Rightarrow> bool" where
  "parses parse m =
     (case matched_text m of
        None \<Rightarrow> False
      | Some t \<Rightarrow> (case parse t of Inl e \<Rightarrow> False | Inr v \<Rightarrow> True))"

text \<open>
  Four upstreams. \<open>healthy_env\<close>: the profile-info endpoint returns the sample user.
  \<open>legacy_env\<close>: only the alternative endpoint does.
  \<open>failing_env\<close>: every call is refused with status 404. \<open>login_wall_env\<close>: every call is
  answered with status 200 and a login page (no pattern matches, no metadata), so no
  \<^verbatim>\<open>axios.get\<close> throws and no reply holds a user object.
\<close>

definition login_page :: html_page where
  "login_page =
     \<lparr> script_matches = [None, None, None, None, None],
       og_title = None, og_url = None, og_image = None, ld_json = [] \<rparr>"

definition healthy_env :: env where
  "healthy_env =
     \<lparr> axios_get = (\<lambda>call. case call of
           GraphQL u \<Rightarrow> Inr (Obj [(''data'', Obj [(''user'', sample_user)])])
         | _ \<Rightarrow> Inl (AxiosError ''Request failed with status code 404'')),
       json_parse = sample_parse,
       html_view = (\<lambda>html. broken_page),
       date_now = 1700000000123 \<rparr>"

definition legacy_env :: env where
  "legacy_env =
     \<lparr> axios_get = (\<lambda>call. case call of
           Alternative u \<Rightarrow> Inr (Obj [(''graphql'', Obj [(''user'', sample_user)])])
         | _ \<Rightarrow> Inl (AxiosError ''Request failed with status code 404'')),
       json_parse = sample_parse,
       html_view = (\<lambda>html. broken_page),
       date_now = 1700000000123 \<rparr>"

definition failing_env :: env where
  "failing_env =
     \<lparr> axios_get = (\<lambda>call. Inl (AxiosError ''Request failed with status code 404'')),
       json_parse = sample_parse,
       html_view = (\<lambda>html. broken_page),
       date_now = 1700000000123 \<rparr>"

definition login_wall_env :: env where
  "login_wall_env =
     \<lparr> axios_get = (\<lambda>call. Inr (Str ''<!DOCTYPE html><html><body>Login</body></html>'')),
       json_parse = sample_parse,
       html_view = (\<lambda>html. login_page),
       date_now = 1700000000123 \<rparr>"

text \<open>
  \<open>null_user_env\<close>: the GraphQL endpoint answers with status 200 and the document
  \<^verbatim>\<open>{"data": {"user": null}}\<close>, as it does for a profile it will not show; the other two
  calls are refused with status 404.
\<close>

definition null_user_env :: env where
  "null_user_env =
     \<lparr> axios_get = (\<lambda>call. case call of
           GraphQL u \<Rightarrow> Inr (Obj [(''data'', Obj [(''user'', Null)])])
         | _ \<Rightarrow> Inl (AxiosError ''Request failed with status code 404'')),
       json_parse = sample_parse,
       html_view = (\<lambda>html. broken_page),
       date_now = 1700000000123 \<rparr>"

definition no_cache :: cache where
  "no_cache = (\<lambda>key. None)"

text \<open>The part of an outcome a client and the next request can see.\<close>

definition reply :: "outcome \<Rightarrow> nat \<times> response_body \<times> cache \<times> call list" where
  "reply out = (status out, body out, cache_after out, calls out)"

text \<open>A cache that holds the sample profile for \<^verbatim>\<open>jane\<close>, stored at the time \<open>ts\<close>.\<close>

definition cache_with :: "int \<Rightarrow> cache" where
  "cache_with ts = no_cache(''instagram-jane'' \<mapsto> (sample_profile, ts))"

definition jane_request :: request where
  "jane_request = \<lparr> username_param = Some ''jane'', debug_param = None \<rparr>"

text \<open>
  A page with no usable script, whose title starts with a display name that begins with
  an at sign.
\<close>

definition titled_page :: html_page where
  "titled_page =
     \<lparr> script_matches = [None, None, None, None, None],
       og_title = Some (''@jane (@jane)'' @ bullet_sep @ ''Instagram photos and videos''),
       og_url = Some ''https://www.instagram.com/jane/'',
       og_image = None, ld_json = [] \<rparr>"

definition blank_request :: request where
  "blank_request = \<lparr> username_param = Some '' '', debug_param = None \<rparr>"

text \<open>
  A client behind a proxy, and the times (in ms) of a burst of 21 requests.
\<close>

definition sample_request :: mw_request where
  "sample_request =
     \<lparr> pathname = ''/api/instagram-proxy'', forwarded = Some ''203.0.113.7, 10.0.0.1'' \<rparr>"

definition sample_times :: "int list" where
  "sample_times = [0, 1, 2, 3, 4, 5, 6, 7, 8, 9, 10, 11, 12, 13, 14, 15, 16, 17, 18, 19, 20]"

section \<open>The nested search is bounded\<close>

lemmas log_induct = findUserData_log_findUserData_log_props_findUserData_log_elems.induct
lemmas nodes_induct = nodes_upto_nodes_upto_props_nodes_upto_elems.induct

lemma findUserData_log_result:
  "fst (findUserData_log obj d) = findUserData obj d"
  "fst (findUserData_log_props ps d i) = findUserData_props ps d"
  "fst (findUserData_log_elems xs d i) = findUserData_elems xs d"
  by (induction obj d and ps d i and xs d i rule: log_induct)
    (auto split: prod.splits option.splits)

lemma findUserData_log_deep: "5 < d \<Longrightarrow> findUserData_log obj d = (None, [])"
  by (cases obj) auto

lemma findUserData_log_depths:
  "(p, k) \<in> set (snd (findUserData_log obj d)) \<Longrightarrow> k = d + length p \<and> k \<le> 5"
  "(p, k) \<in> set (snd (findUserData_log_props ps d i)) \<Longrightarrow> k = d + length p \<and> k \<le> 5 \<and> p \<noteq> []"
  "(p, k) \<in> set (snd (findUserData_log_elems xs d i)) \<Longrightarrow> k = d + length p \<and> k \<le> 5 \<and> p \<noteq> []"
  by (induction obj d and ps d i and xs d i arbitrary: p k and p k and p k rule: log_induct)
    (fastforce split: prod.splits option.splits if_splits)+

lemma findUserData_log_length:
  "length (snd (findUserData_log obj d)) \<le> count_objects obj"
  "length (snd (findUserData_log_props ps d i)) \<le> count_objects_props ps"
  "length (snd (findUserData_log_elems xs d i)) \<le> count_objects_elems xs"
  by (induction obj d and ps d i and xs d i rule: log_induct)
    (auto split: prod.splits option.splits)

lemma first_user_append:
  "first_user (xs @ ys) = (case first_user xs of Some v \<Rightarrow> Some v | None \<Rightarrow> first_user ys)"
  by (induction xs rule: first_user.induct) auto

lemma upto_first_user_append:
  "upto_first_user (xs @ ys) =
     (case first_user xs of Some v \<Rightarrow> upto_first_user xs | None \<Rightarrow> xs @ upto_first_user ys)"
  by (induction xs rule: first_user.induct) (auto split: option.splits)

lemma upto_first_user_none: "first_user xs = None \<Longrightarrow> upto_first_user xs = xs"
  by (induction xs rule: first_user.induct) (auto split: if_splits)

lemma first_user_down: "first_user (map (\<lambda>(p, w). (i # p, w)) xs) = first_user xs"
  by (induction xs rule: first_user.induct) auto

lemma upto_first_user_down:
  "upto_first_user (map (\<lambda>(p, w). (i # p, w)) xs) = map (\<lambda>(p, w). (i # p, w)) (upto_first_user xs)"
  by (induction xs rule: first_user.induct) auto

lemma nodes_upto_primitive: "\<not> (typeof_object v \<and> v \<noteq> Null) \<Longrightarrow> nodes_upto m v = []"
  by (cases v) auto

lemma stamped_down:
  "map (\<lambda>(p, k). (i # p, k)) (stamped (Suc d) xs) = stamped d (map (\<lambda>(p, w). (i # p, w)) xs)"
  by (induction xs) (auto simp: stamped_def)

lemma stamped_append: "stamped d (xs @ ys) = stamped d xs @ stamped d ys"
  by (simp add: stamped_def)

lemma looks_like_user_Arr: "\<not> looks_like_user (Arr xs)"
  by (simp add: looks_like_user_def)

lemma findUserData_log_props_deep:
  "5 \<le> d \<Longrightarrow> findUserData_log_props ps d i = (None, [])"
  by (induction ps arbitrary: i) (auto simp: findUserData_log_deep)

lemma findUserData_log_elems_deep:
  "5 \<le> d \<Longrightarrow> findUserData_log_elems xs d i = (None, [])"
  by (induction xs arbitrary: i) (auto simp: findUserData_log_deep)

lemma findUserData_log_nodes:
  "d \<le> 5 \<Longrightarrow> findUserData_log obj d
     = (first_user (nodes_upto (5 - d) obj), stamped d (upto_first_user (nodes_upto (5 - d) obj)))"
  "d < 5 \<Longrightarrow> findUserData_log_props ps d i
     = (first_user (nodes_upto_props (4 - d) i ps),
        stamped d (upto_first_user (nodes_upto_props (4 - d) i ps)))"
  "d < 5 \<Longrightarrow> findUserData_log_elems xs d i
     = (first_user (nodes_upto_elems (4 - d) i xs),
        stamped d (upto_first_user (nodes_upto_elems (4 - d) i xs)))"
proof (induction obj d and ps d i and xs d i rule: log_induct)
  case (1 ps depth)
  show ?case
  proof (cases "depth = 5")
    case True
    then show ?thesis
      by (simp add: findUserData_log_props_deep stamped_def)
  next
    case False
    with 1 have lt: "depth < 5" by simp
    then have s: "5 - depth = Suc (4 - depth)" by simp
    show ?thesis
      using 1 lt by (simp add: s stamped_def)
  qed
next
  case (2 xs depth)
  show ?case
  proof (cases "depth = 5")
    case True
    then show ?thesis
      by (simp add: findUserData_log_elems_deep stamped_def looks_like_user_Arr)
  next
    case False
    with 2 have lt: "depth < 5" by simp
    then have s: "5 - depth = Suc (4 - depth)" by simp
    show ?thesis
      using 2 lt by (simp add: s stamped_def looks_like_user_Arr)
  qed
next
  case (9 k v ps depth i)
  show ?case
  proof (cases "typeof_object v \<and> v \<noteq> Null")
    case False
    then show ?thesis
      using 9(3) [OF False 9(4)] nodes_upto_primitive [OF False] False by auto
  next
    case True
    have s: "5 - (depth + 1) = 4 - depth" by simp
    have child: "findUserData_log v (depth + 1)
       = (first_user (nodes_upto (4 - depth) v),
          stamped (Suc depth) (upto_first_user (nodes_upto (4 - depth) v)))"
      using 9(1) [OF True] 9(4) by (simp add: s)
    show ?thesis
    proof (cases "first_user (nodes_upto (4 - depth) v)")
      case (Some r)
      then show ?thesis
        using True child
        by (simp add: first_user_append upto_first_user_append first_user_down
            upto_first_user_down stamped_down)
    next
      case None
      then show ?thesis
        using True child 9(2) [OF True _ None] 9(4) upto_first_user_none [OF None]
        by (simp add: first_user_append upto_first_user_append first_user_down
            upto_first_user_down stamped_down stamped_append)
    qed
  qed
next
  case (11 v vs depth i)
  show ?case
  proof (cases "typeof_object v \<and> v \<noteq> Null")
    case False
    then show ?thesis
      using 11(3) [OF False 11(4)] nodes_upto_primitive [OF False] False by auto
  next
    case True
    have s: "5 - (depth + 1) = 4 - depth" by simp
    have child: "findUserData_log v (depth + 1)
       = (first_user (nodes_upto (4 - depth) v),
          stamped (Suc depth) (upto_first_user (nodes_upto (4 - depth) v)))"
      using 11(1) [OF True] 11(4) by (simp add: s)
    show ?thesis
    proof (cases "first_user (nodes_upto (4 - depth) v)")
      case (Some r)
      then show ?thesis
        using True child
        by (simp add: first_user_append upto_first_user_append first_user_down
            upto_first_user_down stamped_down)
    next
      case None
      then show ?thesis
        using True child 11(2) [OF True _ None] 11(4) upto_first_user_none [OF None]
        by (simp add: first_user_append upto_first_user_append first_user_down
            upto_first_user_down stamped_down stamped_append)
    qed
  qed
qed (simp_all add: stamped_def)

lemma nodes_upto_sound:
  "(p, v) \<in> set (nodes_upto n obj) \<Longrightarrow>
     length p \<le> n \<and> node_at obj p = Some v \<and> typeof_object v \<and> v \<noteq> Null"
  "(p, v) \<in> set (nodes_upto_props m i ps) \<Longrightarrow>
     \<exists>j q. p = (i + j) # q \<and> j < length ps \<and> length q \<le> m \<and>
       node_at (snd (ps ! j)) q = Some v \<and> typeof_object v \<and> v \<noteq> Null"
  "(p, v) \<in> set (nodes_upto_elems m i xs) \<Longrightarrow>
     \<exists>j q. p = (i + j) # q \<and> j < length xs \<and> length q \<le> m \<and>
       node_at (xs ! j) q = Some v \<and> typeof_object v \<and> v \<noteq> Null"
proof (induction n obj and m i ps and m i xs arbitrary: p v and p v and p v rule: nodes_induct)
  case (1 n ps)
  show ?case
  proof (cases n)
    case 0
    then show ?thesis using 1(2) by auto
  next
    case (Suc m)
    show ?thesis
    proof (cases "(p, v) \<in> set (nodes_upto_props m 0 ps)")
      case False
      then show ?thesis using 1(2) Suc by auto
    next
      case True
      from 1(1) [OF Suc True] show ?thesis
        using Suc by auto
    qed
  qed
next
  case (2 n xs)
  show ?case
  proof (cases n)
    case 0
    then show ?thesis using 2(2) by auto
  next
    case (Suc m)
    show ?thesis
    proof (cases "(p, v) \<in> set (nodes_upto_elems m 0 xs)")
      case False
      then show ?thesis using 2(2) Suc by auto
    next
      case True
      from 2(1) [OF Suc True] show ?thesis
        using Suc by auto
    qed
  qed
next
  case (9 m i k w ps)
  from 9(3) consider
    (here) q where "p = i # q" "(q, v) \<in> set (nodes_upto m w)"
    | (later) "(p, v) \<in> set (nodes_upto_props m (Suc i) ps)"
    by auto
  then show ?case
  proof cases
    case here
    from 9(1) [OF here(2)] here(1) show ?thesis
      by (intro exI [of _ 0] exI [of _ q]) simp
  next
    case later
    from 9(2) [OF later] obtain j q where
      "p = (Suc i + j) # q" "j < length ps" "length q \<le> m"
      "node_at (snd (ps ! j)) q = Some v" "typeof_object v" "v \<noteq> Null"
      by blast
    then show ?thesis
      by (intro exI [of _ "Suc j"] exI [of _ q]) simp
  qed
next
  case (11 m i w xs)
  from 11(3) consider
    (here) q where "p = i # q" "(q, v) \<in> set (nodes_upto m w)"
    | (later) "(p, v) \<in> set (nodes_upto_elems m (Suc i) xs)"
    by auto
  then show ?case
  proof cases
    case here
    from 11(1) [OF here(2)] here(1) show ?thesis
      by (intro exI [of _ 0] exI [of _ q]) simp
  next
    case later
    from 11(2) [OF later] obtain j q where
      "p = (Suc i + j) # q" "j < length xs" "length q \<le> m"
      "node_at (xs ! j) q = Some v" "typeof_object v" "v \<noteq> Null"
      by blast
    then show ?thesis
      by (intro exI [of _ "Suc j"] exI [of _ q]) simp
  qed
qed simp_all

lemma nodes_upto_props_member:
  "j < length ps \<Longrightarrow> (q, v) \<in> set (nodes_upto m (snd (ps ! j))) \<Longrightarrow>
   ((i + j) # q, v) \<in> set (nodes_upto_props m i ps)"
proof (induction ps arbitrary: i j)
  case Nil
  then show ?case by simp
next
  case (Cons kv ps)
  obtain k w where kv: "kv = (k, w)" by (cases kv)
  show ?case
  proof (cases j)
    case 0
    then show ?thesis using Cons.prems kv by force
  next
    case (Suc j')
    then have "((Suc i + j') # q, v) \<in> set (nodes_upto_props m (Suc i) ps)"
      using Cons.prems by (intro Cons.IH) auto
    then show ?thesis using Suc kv by simp
  qed
qed

lemma nodes_upto_elems_member:
  "j < length xs \<Longrightarrow> (q, v) \<in> set (nodes_upto m (xs ! j)) \<Longrightarrow>
   ((i + j) # q, v) \<in> set (nodes_upto_elems m i xs)"
proof (induction xs arbitrary: i j)
  case Nil
  then show ?case by simp
next
  case (Cons w xs)
  show ?case
  proof (cases j)
    case 0
    then show ?thesis using Cons.prems by force
  next
    case (Suc j')
    then have "((Suc i + j') # q, v) \<in> set (nodes_upto_elems m (Suc i) xs)"
      using Cons.prems by (intro Cons.IH) auto
    then show ?thesis using Suc by simp
  qed
qed

lemma nodes_upto_complete:
  "node_at obj p = Some v \<Longrightarrow> length p \<le> n \<Longrightarrow> typeof_object v \<Longrightarrow> v \<noteq> Null \<Longrightarrow>
   (p, v) \<in> set (nodes_upto n obj)"
proof (induction p arbitrary: obj n)
  case Nil
  then show ?case by (cases v) auto
next
  case (Cons i q)
  from Cons.prems(2) obtain m where n: "n = Suc m" and q: "length q \<le> m"
    by (cases n) auto
  show ?case
  proof (cases obj)
    case (Obj ps)
    then have i: "i < length ps" and at: "node_at (snd (ps ! i)) q = Some v"
      using Cons.prems(1) by (auto split: if_splits)
    from Cons.IH [OF at q Cons.prems(3,4)]
    have "((0 + i) # q, v) \<in> set (nodes_upto_props m 0 ps)"
      by (rule nodes_upto_props_member [OF i])
    then show ?thesis using Obj n by simp
  next
    case (Arr xs)
    then have i: "i < length xs" and at: "node_at (xs ! i) q = Some v"
      using Cons.prems(1) by (auto split: if_splits)
    from Cons.IH [OF at q Cons.prems(3,4)]
    have "((0 + i) # q, v) \<in> set (nodes_upto_elems m 0 xs)"
      by (rule nodes_upto_elems_member [OF i])
    then show ?thesis using Arr n by simp
  qed (use Cons.prems(1) in auto)
qed

lemma upto_first_user_subset: "set (upto_first_user xs) \<subseteq> set xs"
  by (induction xs rule: upto_first_user.induct) auto

lemma stamped_member:
  "(p, k) \<in> set (stamped d xs) \<longleftrightarrow> k = d + length p \<and> (\<exists>v. (p, v) \<in> set xs)"
  by (auto simp: stamped_def)

text \<open>
  Claim C8. \<^verbatim>\<open>findUserData\<close> is a total function: it returns on every value and every
  starting depth, and the search with the log returns what it returns.
  \<^item> A call at a depth greater than 5 returns \<^verbatim>\<open>null\<close> and examines nothing.
  \<^item> Started at a depth \<open>d\<close> of at most 5, the search examines, in order, the objects and
    arrays that lie at most \<open>5 - d\<close> levels below the start, up to and including the first
    user object, and returns that user object (\<^verbatim>\<open>null\<close> when there is none).
  \<^item> Every object it examines lies at the end of a path from the start, in a call whose
    \<open>depth\<close> is \<open>d\<close> plus the length of that path, and that is at most 5: no object nested
    more than \<open>5 - d\<close> levels below the start is examined.
  \<^item> \<open>nodes_upto n\<close> holds exactly the objects and arrays at most \<open>n\<close> levels down.
  \<^item> The search examines at most as many objects as the value contains.
\<close>

theorem findUserData_bounded:
  "fst (findUserData_log obj depth) = findUserData obj depth \<and>
   (5 < depth \<longrightarrow> findUserData obj depth = None \<and> snd (findUserData_log obj depth) = []) \<and>
   (depth \<le> 5 \<longrightarrow>
      findUserData obj depth = first_user (nodes_upto (5 - depth) obj) \<and>
      snd (findUserData_log obj depth)
        = stamped depth (upto_first_user (nodes_upto (5 - depth) obj))) \<and>
   (\<forall>(p, k) \<in> set (snd (findUserData_log obj depth)).
      k = depth + length p \<and> k \<le> 5 \<and>
      (\<exists>v. node_at obj p = Some v \<and> typeof_object v \<and> v \<noteq> Null)) \<and>
   (\<forall>p k. 5 < depth + length p \<longrightarrow> (p, k) \<notin> set (snd (findUserData_log obj depth))) \<and>
   (\<forall>n p v. (p, v) \<in> set (nodes_upto n obj) \<longleftrightarrow>
      length p \<le> n \<and> node_at obj p = Some v \<and> typeof_object v \<and> v \<noteq> Null) \<and>
   length (snd (findUserData_log obj depth)) \<le> count_objects obj"
proof -
  have res: "fst (findUserData_log obj depth) = findUserData obj depth"
    by (rule findUserData_log_result(1))
  have deep: "5 < depth \<longrightarrow> findUserData obj depth = None \<and> snd (findUserData_log obj depth) = []"
    using findUserData_log_deep [of depth obj] res by auto
  have shallow: "depth \<le> 5 \<longrightarrow>
      findUserData obj depth = first_user (nodes_upto (5 - depth) obj) \<and>
      snd (findUserData_log obj depth)
        = stamped depth (upto_first_user (nodes_upto (5 - depth) obj))"
    using findUserData_log_nodes(1) [of depth obj] res by auto
  have nodes: "(p, v) \<in> set (nodes_upto n obj) \<longleftrightarrow>
      length p \<le> n \<and> node_at obj p = Some v \<and> typeof_object v \<and> v \<noteq> Null" for n p v
    using nodes_upto_sound(1) [of p v n obj] nodes_upto_complete [of obj p v n] by blast
  have entry: "k = depth + length p \<and> k \<le> 5 \<and>
      (\<exists>v. node_at obj p = Some v \<and> typeof_object v \<and> v \<noteq> Null)"
    if mem: "(p, k) \<in> set (snd (findUserData_log obj depth))" for p k
  proof -
    have d: "k = depth + length p \<and> k \<le> 5"
      using findUserData_log_depths(1) [OF mem] .
    then have "depth \<le> 5" by simp
    with shallow mem have "(p, k) \<in> set (stamped depth (upto_first_user (nodes_upto (5 - depth) obj)))"
      by simp
    then obtain v where "(p, v) \<in> set (upto_first_user (nodes_upto (5 - depth) obj))"
      by (auto simp: stamped_member)
    then have "(p, v) \<in> set (nodes_upto (5 - depth) obj)"
      using upto_first_user_subset by blast
    with nodes d show ?thesis by blast
  qed
  have beyond: "(p, k) \<notin> set (snd (findUserData_log obj depth))" if "5 < depth + length p" for p k
    using entry [of p k] that by auto
  have entries: "\<forall>(p, k) \<in> set (snd (findUserData_log obj depth)).
      k = depth + length p \<and> k \<le> 5 \<and>
      (\<exists>v. node_at obj p = Some v \<and> typeof_object v \<and> v \<noteq> Null)"
    using entry by blast
  have beyonds: "\<forall>p k. 5 < depth + length p \<longrightarrow> (p, k) \<notin> set (snd (findUserData_log obj depth))"
    using beyond by blast
  have nodess: "\<forall>n p v. (p, v) \<in> set (nodes_upto n obj) \<longleftrightarrow>
      length p \<le> n \<and> node_at obj p = Some v \<and> typeof_object v \<and> v \<noteq> Null"
    using nodes by blast
  have len: "length (snd (findUserData_log obj depth)) \<le> count_objects obj"
    by (rule findUserData_log_length(1))
  show ?thesis
    apply (intro conjI)
          apply (rule res)
         apply (rule deep)
        apply (rule shallow)
       apply (rule entries)
      apply (rule beyonds)
     apply (rule nodess)
    apply (rule len)
    done
qed

text \<open>
  The user object under six nested objects is out of reach: the search examines the
  six objects above it, at the depths 0 to 5, and returns \<^verbatim>\<open>null\<close>. Started at depth 6 on
  the user object itself it examines nothing. In the \<^verbatim>\<open>items\<close> array the user object lies
  two levels down and is found in a call at depth 2.
\<close>

theorem findUserData_bounded_witness:
  "(5::nat) < 6 \<and>
   findUserData plain_user 6 = None \<and>
   snd (findUserData_log plain_user 6) = [] \<and>
   (0::nat) \<le> 5 \<and>
   findUserData buried_user 0 = None \<and>
   first_user (nodes_upto (5 - 0) buried_user) = None \<and>
   snd (findUserData_log buried_user 0)
     = [([], 0), ([0], 1), ([0, 0], 2), ([0, 0, 0], 3), ([0, 0, 0, 0], 4), ([0, 0, 0, 0, 0], 5)] \<and>
   node_at buried_user [0, 0, 0, 0, 0, 0] = Some plain_user \<and>
   (5::nat) < 0 + length [0, 0, 0, 0, 0, 0 :: nat] \<and>
   ([0, 0, 0, 0, 0, 0], 6) \<notin> set (snd (findUserData_log buried_user 0)) \<and>
   ([0, 0, 0, 0, 0, 0], plain_user) \<notin> set (nodes_upto 5 buried_user) \<and>
   ([0, 0, 0, 0, 0, 0], plain_user) \<in> set (nodes_upto 6 buried_user) \<and>
   findUserData listed_user 0 = Some plain_user \<and>
   snd (findUserData_log listed_user 0) = [([], 0), ([0], 1), ([0, 1], 2)] \<and>
   node_at listed_user [0, 1] = Some plain_user"
proof -
  have visited: "snd (findUserData_log buried_user 0)
     = [([], 0), ([0], 1), ([0, 0], 2), ([0, 0, 0], 3), ([0, 0, 0, 0], 4), ([0, 0, 0, 0, 0], 5)]"
    by (simp add: buried_user_def plain_user_def looks_like_user_def)
  have listed: "snd (findUserData_log listed_user 0) = [([], 0), ([0], 1), ([0, 1], 2)]"
    by (simp add: listed_user_def plain_user_def looks_like_user_def)
  have found: "findUserData listed_user 0 = Some plain_user"
    by (simp add: listed_user_def plain_user_def looks_like_user_def)
  have at6: "node_at buried_user [0, 0, 0, 0, 0, 0] = Some plain_user"
    by (simp add: buried_user_def)
  have at2: "node_at listed_user [0, 1] = Some plain_user"
    by (simp add: listed_user_def)
  have obj: "typeof_object plain_user \<and> plain_user \<noteq> Null"
    by (simp add: plain_user_def)
  have none: "findUserData buried_user 0 = None"
    by (simp add: buried_user_def plain_user_def looks_like_user_def)
  note deep_user = findUserData_bounded [of plain_user 6]
  note buried = findUserData_bounded [of buried_user 0]
  have deep: "findUserData plain_user 6 = None \<and> snd (findUserData_log plain_user 6) = []"
    using deep_user [THEN conjunct2, THEN conjunct1] by simp
  have "findUserData buried_user 0 = first_user (nodes_upto (5 - 0) buried_user)"
    using buried [THEN conjunct2, THEN conjunct2, THEN conjunct1] by simp
  with none have lost: "findUserData buried_user 0 = None \<and>
      first_user (nodes_upto (5 - 0) buried_user) = None"
    by simp
  have unseen: "([0, 0, 0, 0, 0, 0], 6) \<notin> set (snd (findUserData_log buried_user 0))"
    using buried [THEN conjunct2, THEN conjunct2, THEN conjunct2, THEN conjunct2,
      THEN conjunct1, rule_format, of "[0, 0, 0, 0, 0, 0]" 6]
    by simp
  note level = buried [THEN conjunct2, THEN conjunct2, THEN conjunct2, THEN conjunct2,
      THEN conjunct2, THEN conjunct1, rule_format]
  have level5: "([0, 0, 0, 0, 0, 0], plain_user) \<notin> set (nodes_upto 5 buried_user)"
    using level [of "[0, 0, 0, 0, 0, 0]" plain_user 5] by simp
  have "([0, 0, 0, 0, 0, 0], plain_user) \<in> set (nodes_upto 6 buried_user)"
    using level [of "[0, 0, 0, 0, 0, 0]" plain_user 6] at6 obj by simp
  with level5 have level6: "([0, 0, 0, 0, 0, 0], plain_user) \<notin> set (nodes_upto 5 buried_user) \<and>
      ([0, 0, 0, 0, 0, 0], plain_user) \<in> set (nodes_upto 6 buried_user)"
    by simp
  have len: "(5::nat) < 0 + length [0, 0, 0, 0, 0, 0 :: nat]" by simp
  have lt: "(5::nat) < 6 \<and> (0::nat) \<le> 5" by simp
  from lt deep lost visited at6 len unseen level6 found listed at2 show ?thesis
    by (simp only: simp_thms)
qed

section \<open>Post timestamps\<close>

lemma and_then_Inr: "and_then r f = Inr y \<longleftrightarrow> (\<exists>v. r = Inr v \<and> f v = Inr y)"
  by (cases r) (auto simp: and_then_def)

lemma for_each_member:
  "for_each f xs = Inr ys \<Longrightarrow> y \<in> set ys \<Longrightarrow> \<exists>x \<in> set xs. f x = Inr y"
  by (induction xs arbitrary: ys) (auto split: sum.splits)

lemma make_post_timestamp:
  "make_post now edge = Inr p \<Longrightarrow>
   \<exists>node. read_prop edge ''node'' = Inr node \<and>
     timestamp p = js_or (read_opt node ''taken_at_timestamp'') (Num (of_int (now div 1000)))"
  by (auto simp: make_post_def and_then_Inr)

lemma for_each_make_post_chars:
  "s \<noteq> [] \<Longrightarrow> for_each (make_post now) (map (\<lambda>c. Str [c]) s) \<noteq> Inr ys"
  by (cases s) (auto simp: make_post_def and_then_def cannot_read_def split: sum.splits)

text \<open>
  The posts of a record are the loop body applied to the elements of the \<^verbatim>\<open>edges\<close>
  array, in order; without a truthy \<^verbatim>\<open>edges\<close> there are none.
\<close>

lemma processUserData_posts:
  assumes "processUserData now userData = Inr d"
  shows "(posts d = [] \<and>
          \<not> truthy (read_opt (read_opt userData ''edge_owner_to_timeline_media'') ''edges'')) \<or>
     (\<exists>xs. read_opt (read_opt userData ''edge_owner_to_timeline_media'') ''edges'' = Arr xs \<and>
        for_each (make_post now) xs = Inr (posts d))"
proof -
  from assms obtain media ps where
    m: "read_prop userData ''edge_owner_to_timeline_media'' = Inr media" and
    ps: "(if truthy (read_opt media ''edges'')
          then and_then (iterate (read_opt media ''edges'')) (for_each (make_post now))
          else Inr []) = Inr ps" and
    d: "posts d = ps"
    by (auto simp: processUserData_def and_then_Inr)
  have media: "media = read_opt userData ''edge_owner_to_timeline_media''"
    using m by (cases userData) auto
  show ?thesis
  proof (cases "truthy (read_opt media ''edges'')")
    case False
    then show ?thesis using ps d media by auto
  next
    case True
    then obtain xs where it: "iterate (read_opt media ''edges'') = Inr xs"
      and fe: "for_each (make_post now) xs = Inr ps"
      using ps by (auto simp: and_then_Inr)
    show ?thesis
    proof (cases "read_opt media ''edges''")
      case (Arr ys)
      then show ?thesis using it fe d media by auto
    next
      case (Str s)
      then have "s \<noteq> []" using True by auto
      then show ?thesis using it fe Str for_each_make_post_chars by auto
    qed (use it in auto)
  qed
qed

text \<open>
  The single-endpoint handler has no fallback: it copies \<^verbatim>\<open>n.taken_at_timestamp\<close>, so a node
  without the field gives a post whose \<^verbatim>\<open>timestamp\<close> is \<^verbatim>\<open>undefined\<close>.
\<close>

lemma make_post_single_timestamp:
  "make_post_single (Obj [(''node'', Obj [(''id'', Str ''p2'')])]) = Inr p \<Longrightarrow>
   timestamp p = Undefined"
  by (auto simp: make_post_single_def and_then_def)

lemma js_or_defined:
  "b \<noteq> Null \<Longrightarrow> b \<noteq> Undefined \<Longrightarrow> js_or a b \<noteq> Null \<and> js_or a b \<noteq> Undefined"
  by (cases a) (auto simp: js_or_def)

lemma js_or_truthy: "truthy a \<Longrightarrow> js_or a b = a"
  by (simp add: js_or_def)

lemma js_or_falsy: "\<not> truthy a \<Longrightarrow> js_or a b = b"
  by (simp add: js_or_def)

text \<open>
  Claim C9, as the specification states it, fails. \<^verbatim>\<open>processUserData\<close> copies a truthy
  \<^verbatim>\<open>taken_at_timestamp\<close> as it is: for the user whose posts carry the number 1600000000.5
  and the string \<^verbatim>\<open>"soon"\<close> it returns two posts whose \<^verbatim>\<open>timestamp\<close> is that number and that
  string, and neither is an epoch integer.
\<close>

theorem processUserData_timestamp_not_integer:
  "typed_user odd_user \<and>
   processUserData 1700000000123 odd_user = Inr odd_profile \<and>
   map timestamp (posts odd_profile) = [Num (3200000001 / 2), Str ''soon''] \<and>
   \<not> is_epoch_integer (Num (3200000001 / 2)) \<and>
   \<not> is_epoch_integer (Str ''soon'')"
proof -
  have typed: "typed_user odd_user"
    by (simp add: typed_user_def odd_user_def typed_edge_def typed_node_def)
  have run: "processUserData 1700000000123 odd_user = Inr odd_profile"
    by (simp add: processUserData_def odd_user_def odd_profile_def odd_post1_def
        odd_post2_def make_post_def caption_text_def and_then_def js_or_def)
  have stamps: "map timestamp (posts odd_profile) = [Num (3200000001 / 2), Str ''soon'']"
    by (simp add: odd_profile_def odd_post1_def odd_post2_def)
  have frac: "\<not> is_epoch_integer (Num (3200000001 / 2))"
    by simp
  have str: "\<not> is_epoch_integer (Str ''soon'')"
    by simp
  from typed run stamps frac str show ?thesis by (simp only: simp_thms)
qed

text \<open>
  Claim C9, amended. Every post of a record that \<^verbatim>\<open>processUserData\<close> returns comes from an
  element of the upstream \<^verbatim>\<open>edges\<close> array, and its \<^verbatim>\<open>timestamp\<close> is never \<^verbatim>\<open>null\<close> or
  \<^verbatim>\<open>undefined\<close>. It is the node's \<^verbatim>\<open>taken_at_timestamp\<close>, unchanged, when that value is truthy,
  and the current time in whole epoch seconds, \<^verbatim>\<open>Math.floor(Date.now() / 1000)\<close>, when the
  node omits the field or holds a falsy value in it. So the timestamp is an epoch integer
  whenever the upstream value is an epoch integer or the fallback is taken.
\<close>

theorem processUserData_timestamp:
  assumes "processUserData now userData = Inr d" and "p \<in> set (posts d)"
  shows "timestamp p \<noteq> Null \<and> timestamp p \<noteq> Undefined \<and>
     (\<exists>xs edge node.
        read_opt (read_opt userData ''edge_owner_to_timeline_media'') ''edges'' = Arr xs \<and>
        edge \<in> set xs \<and> read_prop edge ''node'' = Inr node \<and>
        make_post now edge = Inr p \<and>
        (truthy (read_opt node ''taken_at_timestamp'') \<longrightarrow>
           timestamp p = read_opt node ''taken_at_timestamp'') \<and>
        (\<not> truthy (read_opt node ''taken_at_timestamp'') \<longrightarrow>
           timestamp p = Num (of_int (now div 1000)) \<and> is_epoch_integer (timestamp p)) \<and>
        (is_epoch_integer (read_opt node ''taken_at_timestamp'') \<longrightarrow>
           is_epoch_integer (timestamp p)) \<and>
        (is_epoch_integer (timestamp p) \<longleftrightarrow>
           is_epoch_integer (read_opt node ''taken_at_timestamp'') \<or>
           \<not> truthy (read_opt node ''taken_at_timestamp'')))"
proof -
  from processUserData_posts [OF assms(1)] assms(2)
  obtain xs where xs: "read_opt (read_opt userData ''edge_owner_to_timeline_media'') ''edges'' = Arr xs"
    and fe: "for_each (make_post now) xs = Inr (posts d)"
    by auto
  from for_each_member [OF fe assms(2)]
  obtain edge where edge: "edge \<in> set xs" "make_post now edge = Inr p"
    by auto
  from make_post_timestamp [OF edge(2)]
  obtain node where node: "read_prop edge ''node'' = Inr node"
    and ts: "timestamp p = js_or (read_opt node ''taken_at_timestamp'') (Num (of_int (now div 1000)))"
    by auto
  let ?t = "read_opt node ''taken_at_timestamp''"
  have defined: "timestamp p \<noteq> Null \<and> timestamp p \<noteq> Undefined"
    unfolding ts by (rule js_or_defined) simp_all
  have copied: "truthy ?t \<longrightarrow> timestamp p = ?t"
    by (simp add: ts js_or_truthy)
  have missing: "\<not> truthy ?t \<longrightarrow>
      timestamp p = Num (of_int (now div 1000)) \<and> is_epoch_integer (timestamp p)"
    by (simp add: ts js_or_falsy)
  have kept: "is_epoch_integer ?t \<longrightarrow> is_epoch_integer (timestamp p)"
    using copied missing by (cases "truthy ?t") simp_all
  have iff: "is_epoch_integer (timestamp p) \<longleftrightarrow> is_epoch_integer ?t \<or> \<not> truthy ?t"
    using copied missing by (cases "truthy ?t") simp_all
  from xs edge node defined copied missing kept iff show ?thesis
    by blast
qed

text \<open>
  The sample user at the clock reading 1700000000123 ms: the first post keeps the
  upstream number 1600000000, the second, whose node has no \<^verbatim>\<open>taken_at_timestamp\<close>, is
  stamped 1700000000; both are epoch integers.
\<close>

theorem processUserData_timestamp_witness:
  "processUserData 1700000000123 sample_user = Inr sample_profile \<and>
   sample_post1 \<in> set (posts sample_profile) \<and>
   sample_post2 \<in> set (posts sample_profile) \<and>
   timestamp sample_post1 = Num 1600000000 \<and>
   timestamp sample_post2 = Num 1700000000 \<and>
   timestamp sample_post1 \<noteq> Null \<and> timestamp sample_post1 \<noteq> Undefined \<and>
   timestamp sample_post2 \<noteq> Null \<and> timestamp sample_post2 \<noteq> Undefined \<and>
   is_epoch_integer (timestamp sample_post1) \<and>
   is_epoch_integer (timestamp sample_post2)"
proof -
  have run: "processUserData 1700000000123 sample_user = Inr sample_profile"
    by (simp add: processUserData_def sample_user_def sample_profile_def sample_post1_def
        sample_post2_def make_post_def caption_text_def and_then_def js_or_def)
  have mem1: "sample_post1 \<in> set (posts sample_profile)"
    by (simp add: sample_profile_def)
  have mem2: "sample_post2 \<in> set (posts sample_profile)"
    by (simp add: sample_profile_def)
  have stamps: "timestamp sample_post1 = Num 1600000000 \<and> timestamp sample_post2 = Num 1700000000"
    by (simp add: sample_post1_def sample_post2_def)
  have ints: "is_epoch_integer (timestamp sample_post1) \<and> is_epoch_integer (timestamp sample_post2)"
    by (simp add: stamps)
  have defined1: "timestamp sample_post1 \<noteq> Null \<and> timestamp sample_post1 \<noteq> Undefined"
    using processUserData_timestamp [OF run mem1] by blast
  have defined2: "timestamp sample_post2 \<noteq> Null \<and> timestamp sample_post2 \<noteq> Undefined"
    using processUserData_timestamp [OF run mem2] by blast
  from run mem1 mem2 stamps ints defined1 defined2 show ?thesis
    by (simp only: simp_thms)
qed

section \<open>Tier 1 swallows parse errors\<close>

lemma tier1_skip:
  "\<not> parses parse m \<Longrightarrow> fst (tier1 parse isDebug (m # ms)) = fst (tier1 parse isDebug ms)"
  by (auto simp: parses_def split: option.splits sum.splits prod.splits)

lemma tier1_filter:
  "fst (tier1 parse isDebug ms) = fst (tier1 parse isDebug (filter (parses parse) ms))"
proof (induction ms)
  case Nil
  show ?case by simp
next
  case (Cons m ms)
  show ?case
  proof (cases "parses parse m")
    case False
    then show ?thesis using Cons tier1_skip [of parse m isDebug ms] by simp
  next
    case True
    then obtain t v where t: "matched_text m = Some t" and v: "parse t = Inr v"
      by (auto simp: parses_def split: option.splits sum.splits)
    have keep: "filter (parses parse) (m # ms) = m # filter (parses parse) ms"
      using True by simp
    show ?thesis
      unfolding keep using Cons t v
      by (cases "probe v") (simp_all add: split_beta)
  qed
qed

lemma tier1_none:
  "\<forall>m \<in> set ms. \<not> parses parse m \<Longrightarrow> fst (tier1 parse isDebug ms) = Null"
  using tier1_filter [of parse isDebug ms] by (simp add: filter_False)

text \<open>
  Claim C7. The loop over the patterns returns \<^verbatim>\<open>capturedData\<close> for every list of matches
  and every behaviour of \<^verbatim>\<open>JSON.parse\<close>: a throw of \<^verbatim>\<open>JSON.parse\<close> never leaves it. The
  patterns whose text does not parse count for nothing: the capture is the capture of the
  loop over the remaining patterns. In particular a pattern whose text fails to parse
  hands over to the next pattern, and when no pattern parses \<^verbatim>\<open>extractInstagramData\<close>
  returns what the Tier-2 metadata fallback returns.
\<close>

theorem tier1_swallows_parse_errors:
  "fst (tier1 parse isDebug ms) = fst (tier1 parse isDebug (filter (parses parse) ms)) \<and>
   (matched_text m = Some t \<and> parse t = Inl err \<longrightarrow>
      fst (tier1 parse isDebug (m # ms)) = fst (tier1 parse isDebug ms)) \<and>
   ((\<forall>m \<in> set (script_matches page). \<not> parses parse m) \<longrightarrow>
      fst (extractInstagramData parse now page isDebug) = tier2 parse page)"
proof -
  have a: "matched_text m = Some t \<and> parse t = Inl err \<longrightarrow>
      fst (tier1 parse isDebug (m # ms)) = fst (tier1 parse isDebug ms)"
    using tier1_skip [of parse m isDebug ms] by (auto simp: parses_def)
  have b: "(\<forall>m \<in> set (script_matches page). \<not> parses parse m) \<longrightarrow>
      fst (extractInstagramData parse now page isDebug) = tier2 parse page"
    using tier1_none [of "script_matches page" parse isDebug]
    by (auto simp: extractInstagramData_def split: prod.splits)
  show ?thesis using tier1_filter [of parse isDebug ms] a b by blast
qed

text \<open>
  On the sample page the cut-off script fails to parse and the inline user object is
  captured; on the broken page nothing parses and Tier 2 answers.
\<close>

theorem tier1_swallows_parse_errors_witness:
  "matched_text (Some (Some ''{\"entry_data\":{\"ProfilePage\":[{'', None))
     = Some ''{\"entry_data\":{\"ProfilePage\":[{'' \<and>
   sample_parse ''{\"entry_data\":{\"ProfilePage\":[{''
     = Inl (SyntaxError ''Unexpected end of JSON input'') \<and>
   fst (tier1 sample_parse True (script_matches sample_page))
     = Obj [(''username'', Str ''jane''), (''full_name'', Str ''Jane'')] \<and>
   fst (tier1 sample_parse True (tl (script_matches sample_page)))
     = Obj [(''username'', Str ''jane''), (''full_name'', Str ''Jane'')] \<and>
   list_all (\<lambda>m. \<not> parses sample_parse m) (script_matches broken_page) \<and>
   fst (extractInstagramData sample_parse 1700000000123 broken_page True)
     = tier2 sample_parse broken_page"
  using tier1_swallows_parse_errors
    [of sample_parse True "tl (script_matches sample_page)"
      "Some (Some ''{\"entry_data\":{\"ProfilePage\":[{'', None)"
      "''{\"entry_data\":{\"ProfilePage\":[{''"
      "SyntaxError ''Unexpected end of JSON input''" broken_page 1700000000123]
  by (simp add: sample_parse_def sample_page_def broken_page_def parses_def js_or_def
      probe_def debug_line_def extractInstagramData_def)

section \<open>The orchestrator\<close>

subsection \<open>Stage by stage\<close>

lemma try_scraping_reply:
  "reply (try_scraping e c1 u isDebugMode errors l2) =
     (case fst (method3 e u isDebugMode) of
        Inr d \<Rightarrow> (200, Profile d, c1(''instagram-'' @ u \<mapsto> (d, date_now e)),
                   [GraphQL u, Alternative u, Scraping u])
      | Inl err \<Rightarrow>
          (500,
           Failure ''Failed to fetch Instagram data using any available method'' u
             (errors @ [''HTML scraping error: '' @ message err]) all_failed_message,
           c1, [GraphQL u, Alternative u, Scraping u]))"
  by (cases "method3 e u isDebugMode")
    (auto simp: try_scraping_def reply_def found_def pushed_def Let_def split: sum.splits)

lemma try_alternative_reply:
  "reply (try_alternative e c1 u isDebugMode errors l1) =
     (case method2 e u of
        Inr (Some d) \<Rightarrow>
          (200, Profile d, c1(''instagram-'' @ u \<mapsto> (d, date_now e)),
           [GraphQL u, Alternative u])
      | r2 \<Rightarrow>
          reply (try_scraping e c1 u isDebugMode
            (errors @ pushed ''Alternative API error: '' r2)
            (l1 @ debug_line isDebugMode (''Attempting Instagram alternative API for '' @ u)
               @ (if isDebugMode then pushed ''Alternative API error: '' r2 else []))))"
  by (simp add: try_alternative_def reply_def found_def Let_def
      split: sum.splits option.splits)

lemma try_graphql_reply:
  "reply (try_graphql e c1 u isDebugMode) =
     (case method1 e u of
        Inr (Some d) \<Rightarrow>
          (200, Profile d, c1(''instagram-'' @ u \<mapsto> (d, date_now e)), [GraphQL u])
      | r1 \<Rightarrow>
          reply (try_alternative e c1 u isDebugMode (pushed ''GraphQL API error: '' r1)
            (debug_line isDebugMode (''Attempting Instagram GraphQL API for '' @ u)
               @ (if isDebugMode then pushed ''GraphQL API error: '' r1 else []))))"
  by (simp add: try_graphql_def reply_def found_def Let_def split: sum.splits option.splits)

lemma GET_miss:
  assumes "username_param req = Some u" and "u \<noteq> []"
    and "fst (getCachedData c (date_now e) (''instagram-'' @ u)) = None"
  shows "GET e c req =
     try_graphql e (snd (getCachedData c (date_now e) (''instagram-'' @ u))) u
       (debug_param req = Some ''true'')"
  using assms
  by (cases "getCachedData c (date_now e) (''instagram-'' @ u)") (simp add: GET_def)

lemma reply_fields:
  "reply out = (s, b, c, cs) \<longleftrightarrow> status out = s \<and> body out = b \<and> cache_after out = c \<and> calls out = cs"
  by (auto simp: reply_def)

subsection \<open>Order of the strategies\<close>

text \<open>\<^verbatim>\<open>processUserData\<close> returns a record for every well-typed user object.\<close>

lemma typed_node_caption: "typed_node node \<Longrightarrow> \<exists>t. caption_text node = Inr t"
  by (cases "read_opt node ''edge_media_to_caption''";
      cases "read_opt (read_opt node ''edge_media_to_caption'') ''edges''")
    (auto simp: typed_node_def caption_text_def and_then_def)

lemma typed_edge_post: "typed_edge edge \<Longrightarrow> \<exists>p. make_post now edge = Inr p"
proof -
  assume t: "typed_edge edge"
  then obtain ps where e: "edge = Obj ps" by (cases edge) (auto simp: typed_edge_def)
  from t have n: "typed_node (read_opt edge ''node'')" by (simp add: typed_edge_def)
  then obtain qs where q: "read_opt edge ''node'' = Obj qs"
    by (cases "read_opt edge ''node''") (auto simp: typed_node_def)
  from typed_node_caption [OF n] obtain tx where c: "caption_text (read_opt edge ''node'') = Inr tx"
    by auto
  show ?thesis
    using e q c by (auto simp: make_post_def and_then_def)
qed

lemma for_each_total:
  "list_all (\<lambda>x. \<exists>y. f x = Inr y) xs \<Longrightarrow> \<exists>ys. for_each f xs = Inr ys"
  by (induction xs) auto

lemma typed_user_processes:
  assumes "typed_user userData"
  shows "\<exists>d. processUserData now userData = Inr d"
proof -
  from assms obtain ps where u: "userData = Obj ps"
    by (cases userData) (auto simp: typed_user_def)
  let ?m = "read_opt userData ''edge_owner_to_timeline_media''"
  have m: "read_prop userData ''edge_owner_to_timeline_media'' = Inr ?m"
    using u by simp
  have "\<exists>qs. (if truthy (read_opt ?m ''edges'')
        then and_then (iterate (read_opt ?m ''edges'')) (for_each (make_post now))
        else Inr []) = Inr qs"
  proof (cases "read_opt ?m ''edges''")
    case (Arr xs)
    then have "list_all typed_edge xs"
      using assms by (cases ?m) (auto simp: typed_user_def)
    then have "list_all (\<lambda>x. \<exists>y. make_post now x = Inr y) xs"
      using typed_edge_post by (auto simp: list_all_iff)
    from for_each_total [OF this] show ?thesis
      using Arr by (simp add: and_then_def)
  next
    case Undefined
    then show ?thesis by simp
  qed (use assms in \<open>cases ?m; auto simp: typed_user_def\<close>)+
  then show ?thesis
    using m by (auto simp: processUserData_def and_then_def)
qed

lemma processUserData_postsCount:
  assumes "processUserData now userData = Inr d"
  shows "postsCount d =
     js_or (read_opt (read_opt userData ''edge_owner_to_timeline_media'') ''count'') (Num 0)"
proof -
  from assms obtain media where
    m: "read_prop userData ''edge_owner_to_timeline_media'' = Inr media" and
    c: "postsCount d = js_or (read_opt media ''count'') (Num 0)"
    by (auto simp: processUserData_def and_then_Inr)
  have "media = read_opt userData ''edge_owner_to_timeline_media''"
    using m by (cases userData) auto
  then show ?thesis using c by simp
qed

lemma method1_user:
  assumes "axios_get e (GraphQL u) = Inr dat"
    and "truthy (read_opt (read_opt dat ''data'') ''user'')"
    and "processUserData (date_now e) (read_opt (read_opt dat ''data'') ''user'') = Inr d"
  shows "method1 e u = Inr (Some d)"
  using assms by (simp add: method1_def and_then_def Let_def)

lemma GET_first_success:
  assumes "username_param req = Some u" and "u \<noteq> []"
    and "fst (getCachedData c (date_now e) (''instagram-'' @ u)) = None"
    and "method1 e u = Inr (Some d)"
  shows "status (GET e c req) = 200 \<and> body (GET e c req) = Profile d \<and>
         calls (GET e c req) = [GraphQL u]"
  using try_graphql_reply [of e "snd (getCachedData c (date_now e) (''instagram-'' @ u))" u
      "debug_param req = Some ''true''"] assms(4)
  by (simp add: GET_miss [OF assms(1-3)] reply_def)

lemma GET_second_success:
  assumes "username_param req = Some u" and "u \<noteq> []"
    and "fst (getCachedData c (date_now e) (''instagram-'' @ u)) = None"
    and "\<forall>d'. method1 e u \<noteq> Inr (Some d')" and "method2 e u = Inr (Some d)"
  shows "status (GET e c req) = 200 \<and> body (GET e c req) = Profile d \<and>
         calls (GET e c req) = [GraphQL u, Alternative u]"
proof -
  let ?c1 = "snd (getCachedData c (date_now e) (''instagram-'' @ u))"
  let ?dbg = "debug_param req = Some ''true''"
  have "reply (try_graphql e ?c1 u ?dbg) =
      (200, Profile d, ?c1(''instagram-'' @ u \<mapsto> (d, date_now e)), [GraphQL u, Alternative u])"
    using assms(4,5)
    by (simp add: try_graphql_reply try_alternative_reply split: sum.splits option.splits)
  then show ?thesis
    by (simp add: GET_miss [OF assms(1-3)] reply_def)
qed

lemma GET_third:
  assumes "username_param req = Some u" and "u \<noteq> []"
    and "fst (getCachedData c (date_now e) (''instagram-'' @ u)) = None"
    and "\<forall>d'. method1 e u \<noteq> Inr (Some d')" and "\<forall>d'. method2 e u \<noteq> Inr (Some d')"
  shows "calls (GET e c req) = [GraphQL u, Alternative u, Scraping u] \<and>
     (case fst (method3 e u (debug_param req = Some ''true'')) of
        Inr d \<Rightarrow> status (GET e c req) = 200 \<and> body (GET e c req) = Profile d
      | Inl err \<Rightarrow>
          status (GET e c req) = 500 \<and>
          body (GET e c req) =
            Failure ''Failed to fetch Instagram data using any available method'' u
              (pushed ''GraphQL API error: '' (method1 e u)
               @ pushed ''Alternative API error: '' (method2 e u)
               @ [''HTML scraping error: '' @ message err]) all_failed_message)"
proof -
  let ?c1 = "snd (getCachedData c (date_now e) (''instagram-'' @ u))"
  let ?dbg = "debug_param req = Some ''true''"
  have "reply (try_graphql e ?c1 u ?dbg) =
     (case fst (method3 e u ?dbg) of
        Inr d \<Rightarrow> (200, Profile d, ?c1(''instagram-'' @ u \<mapsto> (d, date_now e)),
                   [GraphQL u, Alternative u, Scraping u])
      | Inl err \<Rightarrow>
          (500,
           Failure ''Failed to fetch Instagram data using any available method'' u
             ((pushed ''GraphQL API error: '' (method1 e u)
               @ pushed ''Alternative API error: '' (method2 e u))
              @ [''HTML scraping error: '' @ message err]) all_failed_message,
           ?c1, [GraphQL u, Alternative u, Scraping u]))"
    using assms(4,5)
    by (simp add: try_graphql_reply try_alternative_reply try_scraping_reply
        split: sum.splits option.splits)
  then show ?thesis
    by (simp add: GET_miss [OF assms(1-3)] reply_def split: sum.splits)
qed

text \<open>
  The order of the strategies. On a cache miss the strategies run in the order A, B, C and
  the first one that returns a record ends the request: after a success of A the only call made is
  A's, after a success of B the calls are A's and B's, and C is called only when neither
  returned a record. If the reply to A holds a well-typed user object whose
  \<^verbatim>\<open>edge_owner_to_timeline_media.count\<close> is 42, the response is the record
  \<^verbatim>\<open>processUserData\<close> makes of it, with \<^verbatim>\<open>postsCount\<close> 42, and neither B nor C is called. The
  messages of the strategies that threw stand in the \<^verbatim>\<open>errors\<close> list of the failure
  response in the order A, B, C, each under its prefix; a strategy that ended without a
  record and without a throw has no entry there (\<open>pushed\<close> is then the empty list).
\<close>

theorem GET_strategy_order:
  assumes "username_param req = Some u" and "u \<noteq> []"
    and "fst (getCachedData c (date_now e) (''instagram-'' @ u)) = None"
  shows
   "(\<forall>d. method1 e u = Inr (Some d) \<longrightarrow>
       status (GET e c req) = 200 \<and> body (GET e c req) = Profile d \<and>
       calls (GET e c req) = [GraphQL u]) \<and>
    (\<forall>d. (\<forall>d'. method1 e u \<noteq> Inr (Some d')) \<and> method2 e u = Inr (Some d) \<longrightarrow>
       status (GET e c req) = 200 \<and> body (GET e c req) = Profile d \<and>
       calls (GET e c req) = [GraphQL u, Alternative u]) \<and>
    ((\<forall>d'. method1 e u \<noteq> Inr (Some d')) \<and> (\<forall>d'. method2 e u \<noteq> Inr (Some d')) \<longrightarrow>
       calls (GET e c req) = [GraphQL u, Alternative u, Scraping u] \<and>
       (case fst (method3 e u (debug_param req = Some ''true'')) of
          Inr d \<Rightarrow> status (GET e c req) = 200 \<and> body (GET e c req) = Profile d
        | Inl err \<Rightarrow>
            status (GET e c req) = 500 \<and>
            body (GET e c req) =
              Failure ''Failed to fetch Instagram data using any available method'' u
                (pushed ''GraphQL API error: '' (method1 e u)
                 @ pushed ''Alternative API error: '' (method2 e u)
                 @ [''HTML scraping error: '' @ message err]) all_failed_message)) \<and>
    (\<forall>dat. axios_get e (GraphQL u) = Inr dat \<and>
       typed_user (read_opt (read_opt dat ''data'') ''user'') \<and>
       read_opt (read_opt (read_opt (read_opt dat ''data'') ''user'')
         ''edge_owner_to_timeline_media'') ''count'' = Num 42 \<longrightarrow>
       (\<exists>d. processUserData (date_now e) (read_opt (read_opt dat ''data'') ''user'') = Inr d \<and>
          status (GET e c req) = 200 \<and> body (GET e c req) = Profile d \<and>
          postsCount d = Num 42 \<and> calls (GET e c req) = [GraphQL u]))"
proof -
  have scenario: "\<exists>d. processUserData (date_now e) (read_opt (read_opt dat ''data'') ''user'') = Inr d \<and>
       status (GET e c req) = 200 \<and> body (GET e c req) = Profile d \<and>
       postsCount d = Num 42 \<and> calls (GET e c req) = [GraphQL u]"
    if "axios_get e (GraphQL u) = Inr dat"
      and "typed_user (read_opt (read_opt dat ''data'') ''user'')"
      and "read_opt (read_opt (read_opt (read_opt dat ''data'') ''user'')
         ''edge_owner_to_timeline_media'') ''count'' = Num 42"
    for dat
  proof -
    from typed_user_processes [OF that(2)] obtain d where
      d: "processUserData (date_now e) (read_opt (read_opt dat ''data'') ''user'') = Inr d"
      by blast
    have tr: "truthy (read_opt (read_opt dat ''data'') ''user'')"
      using that(2) by (cases "read_opt (read_opt dat ''data'') ''user''") (auto simp: typed_user_def)
    show ?thesis
      using GET_first_success [OF assms method1_user [OF that(1) tr d]]
        processUserData_postsCount [OF d] that(3) d
      by (simp add: js_or_def)
  qed
  show ?thesis
    using GET_first_success [OF assms] GET_second_success [OF assms] GET_third [OF assms]
      scenario
    by blast
qed

text \<open>
  The healthy upstream answers the first call with the sample user: the response is the
  sample profile with \<^verbatim>\<open>postsCount\<close> 42 after one call. The legacy upstream answers the
  second call only, and the failing upstream none: its three messages are listed in order.
\<close>

theorem GET_strategy_order_witness:
  "username_param jane_request = Some ''jane'' \<and> ''jane'' \<noteq> [] \<and>
   fst (getCachedData no_cache 1700000000123 (''instagram-'' @ ''jane'')) = None \<and>
   axios_get healthy_env (GraphQL ''jane'')
     = Inr (Obj [(''data'', Obj [(''user'', sample_user)])]) \<and>
   typed_user sample_user \<and>
   read_opt (read_opt sample_user ''edge_owner_to_timeline_media'') ''count'' = Num 42 \<and>
   method1 healthy_env ''jane'' = Inr (Some sample_profile) \<and>
   status (GET healthy_env no_cache jane_request) = 200 \<and>
   body (GET healthy_env no_cache jane_request) = Profile sample_profile \<and>
   postsCount sample_profile = Num 42 \<and>
   calls (GET healthy_env no_cache jane_request) = [GraphQL ''jane''] \<and>
   method1 legacy_env ''jane'' = Inl (AxiosError ''Request failed with status code 404'') \<and>
   method2 legacy_env ''jane'' = Inr (Some sample_profile) \<and>
   body (GET legacy_env no_cache jane_request) = Profile sample_profile \<and>
   calls (GET legacy_env no_cache jane_request) = [GraphQL ''jane'', Alternative ''jane''] \<and>
   method1 failing_env ''jane'' = Inl (AxiosError ''Request failed with status code 404'') \<and>
   method2 failing_env ''jane'' = Inl (AxiosError ''Request failed with status code 404'') \<and>
   status (GET failing_env no_cache jane_request) = 500 \<and>
   calls (GET failing_env no_cache jane_request)
     = [GraphQL ''jane'', Alternative ''jane'', Scraping ''jane''] \<and>
   body (GET failing_env no_cache jane_request)
     = Failure ''Failed to fetch Instagram data using any available method'' ''jane''
         [''GraphQL API error: Request failed with status code 404'',
          ''Alternative API error: Request failed with status code 404'',
          ''HTML scraping error: Request failed with status code 404'']
         all_failed_message"
proof -
  have run: "processUserData 1700000000123 sample_user = Inr sample_profile"
    by (simp add: processUserData_def sample_user_def sample_profile_def sample_post1_def
        sample_post2_def make_post_def caption_text_def and_then_def js_or_def)
  have p: "username_param jane_request = Some ''jane''"
    by (simp add: jane_request_def)
  have ne: "''jane'' \<noteq> []"
    by simp
  have miss: "fst (getCachedData no_cache 1700000000123 (''instagram-'' @ ''jane'')) = None"
    by (simp add: getCachedData_def no_cache_def)
  have miss_h: "fst (getCachedData no_cache (date_now healthy_env) (''instagram-'' @ ''jane'')) = None"
    using miss by (simp add: healthy_env_def)
  have miss_l: "fst (getCachedData no_cache (date_now legacy_env) (''instagram-'' @ ''jane'')) = None"
    using miss by (simp add: legacy_env_def)
  have miss_f: "fst (getCachedData no_cache (date_now failing_env) (''instagram-'' @ ''jane'')) = None"
    using miss by (simp add: failing_env_def)
  have answer: "axios_get healthy_env (GraphQL ''jane'')
      = Inr (Obj [(''data'', Obj [(''user'', sample_user)])])"
    by (simp add: healthy_env_def)
  have typed: "typed_user sample_user"
    by (simp add: typed_user_def sample_user_def typed_edge_def typed_node_def)
  have count: "read_opt (read_opt sample_user ''edge_owner_to_timeline_media'') ''count'' = Num 42"
    by (simp add: sample_user_def)
  have h1: "method1 healthy_env ''jane'' = Inr (Some sample_profile)"
    using run by (simp add: method1_def healthy_env_def and_then_def Let_def sample_user_def)
  have l1: "method1 legacy_env ''jane'' = Inl (AxiosError ''Request failed with status code 404'')"
    by (simp add: method1_def legacy_env_def and_then_def)
  have l2: "method2 legacy_env ''jane'' = Inr (Some sample_profile)"
    using run by (simp add: method2_def legacy_env_def and_then_def Let_def sample_user_def)
  have f1: "method1 failing_env ''jane'' = Inl (AxiosError ''Request failed with status code 404'')"
    by (simp add: method1_def failing_env_def and_then_def)
  have f2: "method2 failing_env ''jane'' = Inl (AxiosError ''Request failed with status code 404'')"
    by (simp add: method2_def failing_env_def and_then_def)
  have f3: "fst (method3 failing_env ''jane'' (debug_param jane_request = Some ''true''))
      = Inl (AxiosError ''Request failed with status code 404'')"
    by (simp add: method3_def failing_env_def)
  have first: "status (GET healthy_env no_cache jane_request) = 200 \<and>
      body (GET healthy_env no_cache jane_request) = Profile sample_profile \<and>
      calls (GET healthy_env no_cache jane_request) = [GraphQL ''jane'']"
    using GET_strategy_order [OF p ne miss_h] h1 by blast
  have forty_two: "postsCount sample_profile = Num 42"
    by (simp add: sample_profile_def)
  have second: "body (GET legacy_env no_cache jane_request) = Profile sample_profile \<and>
      calls (GET legacy_env no_cache jane_request) = [GraphQL ''jane'', Alternative ''jane'']"
    using GET_strategy_order [OF p ne miss_l] l1 l2 by simp
  have third: "calls (GET failing_env no_cache jane_request)
        = [GraphQL ''jane'', Alternative ''jane'', Scraping ''jane''] \<and>
      status (GET failing_env no_cache jane_request) = 500 \<and>
      body (GET failing_env no_cache jane_request)
        = Failure ''Failed to fetch Instagram data using any available method'' ''jane''
            [''GraphQL API error: Request failed with status code 404'',
             ''Alternative API error: Request failed with status code 404'',
             ''HTML scraping error: Request failed with status code 404'']
            all_failed_message"
    using GET_strategy_order [OF p ne miss_f] f1 f2 f3 by (simp add: pushed_def)
  from p ne miss answer typed count h1 first forty_two l1 l2 second f1 f2 third show ?thesis
    by blast
qed

subsection \<open>The cache in front of the strategies\<close>

lemma try_graphql_calls: "take 1 (calls (try_graphql e c1 u isDebugMode)) = [GraphQL u]"
proof -
  have "take 1 (snd (snd (snd (reply (try_graphql e c1 u isDebugMode))))) = [GraphQL u]"
    by (simp add: try_graphql_reply try_alternative_reply try_scraping_reply
        split: sum.splits option.splits)
  then show ?thesis by (simp add: reply_def)
qed

lemma getCachedData_hit:
  "fst (getCachedData c now k) = Some x \<Longrightarrow> \<exists>t. c k = Some (x, t) \<and> now - t < CACHE_DURATION"
  by (auto simp: getCachedData_def split: option.splits if_splits)

text \<open>
  Claim C4. For a request with a non-empty username whose cache entry is younger than
  \<^verbatim>\<open>CACHE_DURATION\<close> (10 minutes), the entry is the response, no upstream call is made and
  the cache is unchanged. An entry whose age is at least \<^verbatim>\<open>CACHE_DURATION\<close> is not
  returned: the read deletes it, the request is handled exactly as if the entry had
  never been there, and its first upstream call is Strategy A's. \<^verbatim>\<open>getCachedData\<close> returns
  only entries younger than \<^verbatim>\<open>CACHE_DURATION\<close>.
\<close>

theorem GET_cache_ttl:
  assumes "username_param req = Some u" and "u \<noteq> []"
    and "c (''instagram-'' @ u) = Some (d, ts)"
  shows
   "(date_now e - ts < CACHE_DURATION \<longrightarrow>
       status (GET e c req) = 200 \<and> body (GET e c req) = Profile d \<and>
       calls (GET e c req) = [] \<and> cache_after (GET e c req) = c) \<and>
    (CACHE_DURATION \<le> date_now e - ts \<longrightarrow>
       getCachedData c (date_now e) (''instagram-'' @ u) = (None, c(''instagram-'' @ u := None)) \<and>
       GET e c req = GET e (c(''instagram-'' @ u := None)) req \<and>
       take 1 (calls (GET e c req)) = [GraphQL u]) \<and>
    (\<forall>x k now. fst (getCachedData c now k) = Some x \<longrightarrow>
       (\<exists>t. c k = Some (x, t) \<and> now - t < CACHE_DURATION))"
proof -
  have fresh: "status (GET e c req) = 200 \<and> body (GET e c req) = Profile d \<and>
       calls (GET e c req) = [] \<and> cache_after (GET e c req) = c"
    if "date_now e - ts < CACHE_DURATION"
    using assms that by (simp add: GET_def getCachedData_def)
  have stale: "getCachedData c (date_now e) (''instagram-'' @ u) = (None, c(''instagram-'' @ u := None)) \<and>
       GET e c req = GET e (c(''instagram-'' @ u := None)) req \<and>
       take 1 (calls (GET e c req)) = [GraphQL u]"
    if "CACHE_DURATION \<le> date_now e - ts"
  proof -
    have g: "getCachedData c (date_now e) (''instagram-'' @ u) = (None, c(''instagram-'' @ u := None))"
      using assms(3) that by (simp add: getCachedData_def)
    have g': "getCachedData (c(''instagram-'' @ u := None)) (date_now e) (''instagram-'' @ u)
        = (None, c(''instagram-'' @ u := None))"
      by (simp add: getCachedData_def)
    have run: "GET e c req = try_graphql e (c(''instagram-'' @ u := None)) u
        (debug_param req = Some ''true'')"
      using assms(1,2) g by (simp add: GET_def)
    have run': "GET e (c(''instagram-'' @ u := None)) req =
        try_graphql e (c(''instagram-'' @ u := None)) u (debug_param req = Some ''true'')"
      using assms(1,2) g' by (simp add: GET_def)
    show ?thesis
      using g run run' try_graphql_calls [of e "c(''instagram-'' @ u := None)" u] by simp
  qed
  show ?thesis
    using fresh stale getCachedData_hit by blast
qed

text \<open>
  The sample profile stored 599999 ms ago is served without a call; stored 600000 ms
  ago it is deleted and the healthy upstream is asked.
\<close>

theorem GET_cache_ttl_witness:
  "username_param jane_request = Some ''jane'' \<and> ''jane'' \<noteq> [] \<and>
   cache_with 1699999400124 (''instagram-'' @ ''jane'') = Some (sample_profile, 1699999400124) \<and>
   date_now healthy_env - 1699999400124 < CACHE_DURATION \<and>
   fst (getCachedData (cache_with 1699999400124) (date_now healthy_env) (''instagram-'' @ ''jane''))
     = Some sample_profile \<and>
   body (GET healthy_env (cache_with 1699999400124) jane_request) = Profile sample_profile \<and>
   calls (GET healthy_env (cache_with 1699999400124) jane_request) = [] \<and>
   cache_with 1699999400123 (''instagram-'' @ ''jane'') = Some (sample_profile, 1699999400123) \<and>
   CACHE_DURATION \<le> date_now healthy_env - 1699999400123 \<and>
   fst (getCachedData (cache_with 1699999400123) (date_now healthy_env) (''instagram-'' @ ''jane''))
     = None \<and>
   take 1 (calls (GET healthy_env (cache_with 1699999400123) jane_request)) = [GraphQL ''jane'']"
proof -
  have p: "username_param jane_request = Some ''jane''"
    by (simp add: jane_request_def)
  have ne: "''jane'' \<noteq> []"
    by simp
  have fresh: "cache_with 1699999400124 (''instagram-'' @ ''jane'') = Some (sample_profile, 1699999400124)"
    by (simp add: cache_with_def)
  have stale: "cache_with 1699999400123 (''instagram-'' @ ''jane'') = Some (sample_profile, 1699999400123)"
    by (simp add: cache_with_def)
  have t1: "date_now healthy_env - 1699999400124 < CACHE_DURATION"
    by (simp add: healthy_env_def CACHE_DURATION_def)
  have t2: "CACHE_DURATION \<le> date_now healthy_env - 1699999400123"
    by (simp add: healthy_env_def CACHE_DURATION_def)
  have served: "body (GET healthy_env (cache_with 1699999400124) jane_request)
        = Profile sample_profile \<and>
      calls (GET healthy_env (cache_with 1699999400124) jane_request) = []"
    using
      GET_cache_ttl [of jane_request "''jane''" "cache_with 1699999400124" sample_profile
        1699999400124 healthy_env, OF p ne fresh] t1
    by blast
  have evicted: "getCachedData (cache_with 1699999400123) (date_now healthy_env)
        (''instagram-'' @ ''jane'')
        = (None, (cache_with 1699999400123)(''instagram-'' @ ''jane'' := None)) \<and>
      take 1 (calls (GET healthy_env (cache_with 1699999400123) jane_request))
        = [GraphQL ''jane'']"
    using
      GET_cache_ttl [of jane_request "''jane''" "cache_with 1699999400123" sample_profile
        1699999400123 healthy_env, OF p ne stale] t2
    by blast
  then have miss: "fst (getCachedData (cache_with 1699999400123) (date_now healthy_env)
        (''instagram-'' @ ''jane'')) = None"
    by simp
  have hit: "fst (getCachedData (cache_with 1699999400124) (date_now healthy_env)
        (''instagram-'' @ ''jane'')) = Some sample_profile"
    using fresh t1 by (simp add: getCachedData_def)
  from p ne fresh t1 hit served stale t2 miss evicted show ?thesis
    by blast
qed

subsection \<open>The debug flag\<close>

lemma tier1_debug: "fst (tier1 parse a ms) = fst (tier1 parse b ms)"
  by (induction ms) (auto split: option.splits sum.splits prod.splits)

lemma extractInstagramData_debug:
  "fst (extractInstagramData parse now page a) = fst (extractInstagramData parse now page b)"
  using tier1_debug [of parse a "script_matches page" b]
  by (simp add: extractInstagramData_def split_beta)

lemma method3_debug: "fst (method3 e u a) = fst (method3 e u b)"
proof (cases "axios_get e (Scraping u)")
  case (Inl err)
  then show ?thesis by (simp add: method3_def)
next
  case (Inr v)
  show ?thesis
  proof (cases v)
    case (Str html)
    then show ?thesis
      using Inr extractInstagramData_debug [of "json_parse e" "date_now e" "html_view e html" a b]
      by (auto simp: method3_def split: prod.splits sum.splits)
  qed (simp_all add: method3_def Inr)
qed

lemma try_graphql_debug:
  "reply (try_graphql e c1 u a) = reply (try_graphql e c1 u b)"
  by (simp add: try_graphql_reply try_alternative_reply try_scraping_reply
      method3_debug [of e u a b] cong: sum.case_cong option.case_cong)

lemma GET_debug:
  "reply (GET e c (req\<lparr>debug_param := a\<rparr>)) = reply (GET e c (req\<lparr>debug_param := b\<rparr>))"
proof (cases "username_param req")
  case None
  then show ?thesis by (simp add: GET_def)
next
  case (Some u)
  show ?thesis
  proof (cases "getCachedData c (date_now e) (''instagram-'' @ u)")
    case (Pair hit c1)
    show ?thesis
    proof (cases hit)
      case None
      then show ?thesis using Some Pair
        by (simp add: GET_def try_graphql_debug [of e c1 u "a = Some ''true''" "b = Some ''true''"])
    next
      case (Some d)
      then show ?thesis using \<open>username_param req = Some u\<close> Pair
        by (simp add: GET_def)
    qed
  qed
qed

text \<open>
  Claim C10. For a fixed username, cache, clock and upstream, the status and the body of
  the response, the cache left behind and the upstream calls made are the same for every
  two values of the \<^verbatim>\<open>debug\<close> parameter: the flag reaches the console only.
\<close>

theorem GET_debug_independent:
  "status (GET e c (req\<lparr>debug_param := a\<rparr>)) = status (GET e c (req\<lparr>debug_param := b\<rparr>)) \<and>
   body (GET e c (req\<lparr>debug_param := a\<rparr>)) = body (GET e c (req\<lparr>debug_param := b\<rparr>)) \<and>
   cache_after (GET e c (req\<lparr>debug_param := a\<rparr>))
     = cache_after (GET e c (req\<lparr>debug_param := b\<rparr>)) \<and>
   calls (GET e c (req\<lparr>debug_param := a\<rparr>)) = calls (GET e c (req\<lparr>debug_param := b\<rparr>))"
  using GET_debug [where e = e and c = c and req = req and a = a and b = b]
  by (simp add: reply_def)

text \<open>
  With every call refused, the failure body lists the three errors whether or not
  \<^verbatim>\<open>debug=true\<close> is sent; the console is silent without the flag and not with it.
\<close>

theorem GET_debug_independent_witness:
  "body (GET failing_env no_cache (jane_request\<lparr>debug_param := None\<rparr>))
     = body (GET failing_env no_cache (jane_request\<lparr>debug_param := Some ''true''\<rparr>)) \<and>
   body (GET failing_env no_cache (jane_request\<lparr>debug_param := None\<rparr>))
     = Failure ''Failed to fetch Instagram data using any available method'' ''jane''
         [''GraphQL API error: Request failed with status code 404'',
          ''Alternative API error: Request failed with status code 404'',
          ''HTML scraping error: Request failed with status code 404'']
         all_failed_message \<and>
   console (GET failing_env no_cache (jane_request\<lparr>debug_param := None\<rparr>)) = [] \<and>
   console (GET failing_env no_cache (jane_request\<lparr>debug_param := Some ''true''\<rparr>)) \<noteq> []"
proof -
  have m1: "method1 failing_env ''jane'' = Inl (AxiosError ''Request failed with status code 404'')"
    by (simp add: method1_def failing_env_def and_then_def)
  have m2: "method2 failing_env ''jane'' = Inl (AxiosError ''Request failed with status code 404'')"
    by (simp add: method2_def failing_env_def and_then_def)
  have m3: "method3 failing_env ''jane'' dbg
      = (Inl (AxiosError ''Request failed with status code 404''), [])" for dbg
    by (simp add: method3_def failing_env_def)
  have run: "GET failing_env no_cache (jane_request\<lparr>debug_param := dbg\<rparr>)
      = try_graphql failing_env no_cache ''jane'' (dbg = Some ''true'')" for dbg
    by (simp add: GET_def jane_request_def getCachedData_def no_cache_def)
  have quiet: "body (try_graphql failing_env no_cache ''jane'' False)
     = Failure ''Failed to fetch Instagram data using any available method'' ''jane''
         [''GraphQL API error: Request failed with status code 404'',
          ''Alternative API error: Request failed with status code 404'',
          ''HTML scraping error: Request failed with status code 404'']
         all_failed_message \<and>
     console (try_graphql failing_env no_cache ''jane'' False) = []"
    by (simp add: try_graphql_def try_alternative_def try_scraping_def m1 m2 m3 pushed_def
        debug_line_def Let_def)
  have loud: "console (try_graphql failing_env no_cache ''jane'' True) \<noteq> []"
    by (simp add: try_graphql_def try_alternative_def try_scraping_def m1 m2 m3 pushed_def
        debug_line_def Let_def)
  show ?thesis
    using GET_debug_independent [where e = failing_env and c = no_cache and req = jane_request
        and a = None and b = "Some ''true''"]
      quiet loud
    by (simp add: run)
qed

subsection \<open>Failures that leave no message\<close>

lemma method3_login_wall:
  "method3 login_wall_env u isDebugMode
     = (Inl (Error ''Could not extract user data from HTML''), [])"
  by (simp add: method3_def login_wall_env_def extractInstagramData_def login_page_def
      tier2_def meta_username_def meta_picture_def js_or_def Let_def)

text \<open>
  Claim C2, at the login wall: the three strategies are called and none returns a record,
  yet the \<^verbatim>\<open>errors\<close> list of the 500 response has one entry. Strategies A and B end
  without a user object and without a throw, so their \<^verbatim>\<open>catch\<close> blocks, the only places
  that push on \<^verbatim>\<open>errors\<close>, are not entered; Strategy C throws in the same situation.
\<close>

theorem GET_login_wall_errors:
  "status (GET login_wall_env no_cache jane_request) = 500 \<and>
   calls (GET login_wall_env no_cache jane_request)
     = [GraphQL ''jane'', Alternative ''jane'', Scraping ''jane''] \<and>
   method1 login_wall_env ''jane'' = Inr None \<and>
   method2 login_wall_env ''jane'' = Inr None \<and>
   body (GET login_wall_env no_cache jane_request)
     = Failure ''Failed to fetch Instagram data using any available method'' ''jane''
         [''HTML scraping error: Could not extract user data from HTML'']
         all_failed_message"
proof -
  have m1: "method1 login_wall_env ''jane'' = Inr None"
    by (simp add: method1_def login_wall_env_def and_then_def)
  have m2: "method2 login_wall_env ''jane'' = Inr None"
    by (simp add: method2_def login_wall_env_def and_then_def)
  have run: "GET login_wall_env no_cache jane_request
      = try_graphql login_wall_env no_cache ''jane'' False"
    by (simp add: GET_def jane_request_def getCachedData_def no_cache_def)
  have "reply (try_graphql login_wall_env no_cache ''jane'' False)
      = (500,
         Failure ''Failed to fetch Instagram data using any available method'' ''jane''
           [''HTML scraping error: Could not extract user data from HTML''] all_failed_message,
         no_cache, [GraphQL ''jane'', Alternative ''jane'', Scraping ''jane''])"
    by (simp add: try_graphql_reply try_alternative_reply try_scraping_reply m1 m2
        method3_login_wall pushed_def)
  then show ?thesis
    using m1 m2 by (simp add: run reply_def)
qed

text \<open>
  Claim C3, where Strategy A fails without a throw. The strategies do run in the order
  A, B, C, and a first success ends the request (\<open>GET_strategy_order\<close>). But the message
  of a failed strategy is appended to \<^verbatim>\<open>errors\<close> only in its \<^verbatim>\<open>catch\<close> block. When the
  GraphQL endpoint answers \<^verbatim>\<open>{"data": {"user": null}}\<close>, Strategy A returns no record and
  throws nothing: Strategy B runs next with \<^verbatim>\<open>errors\<close> still empty, and the failure response,
  after three failed strategies, lists two messages, none of them A's.
\<close>

theorem GET_failure_without_message:
  "method1 null_user_env ''jane'' = Inr None \<and>
   method2 null_user_env ''jane'' = Inl (AxiosError ''Request failed with status code 404'') \<and>
   pushed ''GraphQL API error: '' (method1 null_user_env ''jane'') = [] \<and>
   status (GET null_user_env no_cache jane_request) = 500 \<and>
   calls (GET null_user_env no_cache jane_request)
     = [GraphQL ''jane'', Alternative ''jane'', Scraping ''jane''] \<and>
   body (GET null_user_env no_cache jane_request)
     = Failure ''Failed to fetch Instagram data using any available method'' ''jane''
         [''Alternative API error: Request failed with status code 404'',
          ''HTML scraping error: Request failed with status code 404'']
         all_failed_message"
proof -
  have m1: "method1 null_user_env ''jane'' = Inr None"
    by (simp add: method1_def null_user_env_def and_then_def)
  have m2: "method2 null_user_env ''jane''
      = Inl (AxiosError ''Request failed with status code 404'')"
    by (simp add: method2_def null_user_env_def and_then_def)
  have m3: "method3 null_user_env ''jane'' False
      = (Inl (AxiosError ''Request failed with status code 404''), [])"
    by (simp add: method3_def null_user_env_def)
  have run: "GET null_user_env no_cache jane_request
      = try_graphql null_user_env no_cache ''jane'' False"
    by (simp add: GET_def jane_request_def getCachedData_def no_cache_def)
  have "reply (try_graphql null_user_env no_cache ''jane'' False)
      = (500,
         Failure ''Failed to fetch Instagram data using any available method'' ''jane''
           [''Alternative API error: Request failed with status code 404'',
            ''HTML scraping error: Request failed with status code 404''] all_failed_message,
         no_cache, [GraphQL ''jane'', Alternative ''jane'', Scraping ''jane''])"
    by (simp add: try_graphql_reply try_alternative_reply try_scraping_reply m1 m2 m3
        pushed_def)
  then show ?thesis
    using m1 m2 by (simp add: run reply_def pushed_def)
qed

subsection \<open>Blank usernames\<close>

lemma try_graphql_status: "status (try_graphql e c1 u isDebugMode) \<noteq> 400"
proof -
  have "fst (reply (try_graphql e c1 u isDebugMode)) \<noteq> 400"
    by (simp add: try_graphql_reply try_alternative_reply try_scraping_reply
        split: sum.splits option.splits)
  then show ?thesis by (simp add: reply_def)
qed

lemma GET_status_400:
  "status (GET e c req) = 400 \<longleftrightarrow> username_param req = None \<or> username_param req = Some []"
proof (cases "username_param req")
  case None
  then show ?thesis by (simp add: GET_def)
next
  case (Some u)
  show ?thesis
  proof (cases "getCachedData c (date_now e) (''instagram-'' @ u)")
    case (Pair hit c1)
    then show ?thesis using Some try_graphql_status [of e c1 u]
      by (cases hit) (simp_all add: GET_def)
  qed
qed

lemma trim_blank: "\<forall>ch \<in> set s. is_space ch \<Longrightarrow> trim s = []"
proof -
  assume blank: "\<forall>ch \<in> set s. is_space ch"
  then have "dropWhile is_space s = []"
    by (simp add: dropWhile_eq_Nil_conv)
  then show ?thesis
    unfolding trim_def by (simp only: rev.simps dropWhile.simps)
qed

text \<open>The single-endpoint handler rejects every missing, empty or blank username at once.\<close>

lemma GET_single_blank:
  assumes "username_param req = None \<or>
     (\<exists>s. username_param req = Some s \<and> (\<forall>ch \<in> set s. is_space ch))"
  shows "status (GET_single e c req) = 400 \<and>
     body (GET_single e c req) = ErrorOnly ''Username is required'' \<and>
     calls (GET_single e c req) = [] \<and> cache_after (GET_single e c req) = c"
  using assms by (auto simp: GET_single_def trim_blank)

text \<open>
  Claim C5, at the username of one space. The three-strategy \<^verbatim>\<open>GET\<close> tests the raw
  parameter (\<^verbatim>\<open>!username\<close>), and a blank string is truthy: the request is not answered
  with 400, the cache is read and, on a miss, Strategy A is called with the blank name.
  The single-endpoint \<^verbatim>\<open>GET\<close> trims first and answers 400 without a call.
\<close>

theorem GET_blank_username_passes:
  "status (GET e c blank_request) \<noteq> 400 \<and>
   take 1 (calls (GET e no_cache blank_request)) = [GraphQL '' ''] \<and>
   status (GET_single e c blank_request) = 400 \<and>
   calls (GET_single e c blank_request) = []"
proof -
  have a: "status (GET e c blank_request) \<noteq> 400"
    by (simp add: GET_status_400 blank_request_def)
  have "GET e no_cache blank_request = try_graphql e no_cache '' '' False"
    by (simp add: GET_def blank_request_def getCachedData_def no_cache_def)
  then have b: "take 1 (calls (GET e no_cache blank_request)) = [GraphQL '' '']"
    using try_graphql_calls [of e no_cache "'' ''" False] by simp
  have c: "status (GET_single e c blank_request) = 400 \<and> calls (GET_single e c blank_request) = []"
    by (simp add: GET_single_def blank_request_def trim_def is_space_def)
  from a b c show ?thesis by simp
qed

subsection \<open>The username field\<close>

lemma remove_first_head: "remove_first ch (ch # s) = s"
  by simp

text \<open>The earlier JSON-LD extractor strips the first at sign of \<^verbatim>\<open>alternateName\<close>.\<close>

lemma extractInstagramData_person_strips:
  assumes "t \<noteq> []"
    and "parse t = Inr (Obj [(''@type'', Str ''Person''), (''alternateName'', Str (CHR ''@'' # h))])"
  shows "map_option username (extractInstagramData_person parse [Some t]) = Some (Str h)"
  using assms by (simp add: person_record_def and_then_def)

text \<open>
  Claim C6, at two inputs. \<^verbatim>\<open>processUserData\<close> copies the upstream \<^verbatim>\<open>username\<close>, and Tier 2
  takes the text of \<^verbatim>\<open>og:title\<close> before the bullet (or the JSON-LD \<^verbatim>\<open>name\<close>): neither removes
  an at sign, so a leading one reaches the record.
\<close>

theorem username_keeps_at_sign:
  "(\<exists>d. processUserData 1700000000123
          (Obj [(''username'', Str ''@jane''), (''full_name'', Str ''Jane'')]) = Inr d \<and>
        username d = Str ''@jane'') \<and>
   (\<exists>d. fst (extractInstagramData sample_parse 1700000000123 titled_page False) = Inr d \<and>
        username d = Str ''@jane (@jane)'')"
proof -
  have a: "\<exists>d. processUserData 1700000000123
          (Obj [(''username'', Str ''@jane''), (''full_name'', Str ''Jane'')]) = Inr d \<and>
        username d = Str ''@jane''"
    by (simp add: processUserData_def and_then_def js_or_def)
  have b: "\<exists>d. fst (extractInstagramData sample_parse 1700000000123 titled_page False) = Inr d \<and>
        username d = Str ''@jane (@jane)''"
    by (simp add: extractInstagramData_def titled_page_def tier2_def meta_username_def
        meta_picture_def js_or_def bullet_sep_def Let_def)
  from a b show ?thesis by simp
qed

section \<open>The rate limiter\<close>

subsection \<open>The cache operations\<close>

lemma keys_differ: "cooldownKey ip \<noteq> requestKey ip'"
  by (simp add: cooldownKey_def requestKey_def)

lemma lru_find_delete_other: "k \<noteq> k' \<Longrightarrow> lru_find k (lru_delete k' c) = lru_find k c"
  by (induction c) (auto simp: lru_find_def lru_delete_def)

lemma lru_find_delete_same: "lru_find k (lru_delete k c) = None"
  by (induction c) (auto simp: lru_find_def lru_delete_def)

lemma lru_find_key: "lru_find k c = Some en \<Longrightarrow> entry_key en = k"
  by (induction c) (auto simp: lru_find_def split: if_splits)

lemma lru_find_get_other:
  "k \<noteq> k' \<Longrightarrow> lru_find k (snd (lru_get c now k')) = lru_find k c"
proof (cases "lru_find k' c")
  case None
  then show ?thesis by (simp add: lru_get_def)
next
  case (Some en)
  assume ne: "k \<noteq> k'"
  have "entry_key en = k'" using Some by (rule lru_find_key)
  then show ?thesis
    using Some ne lru_find_delete_other [of k k' c]
    by (auto simp: lru_get_def lru_find_def)
qed

lemma lru_find_butlast:
  "lru_find k c = Some en \<Longrightarrow> lru_find k (butlast c) = Some en \<or> lru_find k (butlast c) = None"
  by (induction c) (auto simp: lru_find_def split: if_splits)

lemma lru_find_set_same:
  "lru_find k (lru_set c now k v t) =
     Some \<lparr> entry_key = k, entry_value = v, entry_start = now, entry_ttl = t \<rparr>"
  by (simp add: lru_set_def lru_find_def Let_def)

lemma lru_get_value:
  "fst (lru_get c now k) =
     (case lru_find k c of
        None \<Rightarrow> None
      | Some en \<Rightarrow> if is_stale en now then None else Some (entry_value en))"
  by (simp add: lru_get_def split: option.splits)

lemma lru_find_set_other_existing:
  "k \<noteq> k' \<Longrightarrow> lru_find k' c \<noteq> None \<Longrightarrow> lru_find k (lru_set c now k' v t) = lru_find k c"
  using lru_find_delete_other [of k k' c]
  by (auto simp: lru_set_def Let_def lru_find_def)

subsection \<open>One request\<close>

lemma request_count_find:
  "lru_find (requestKey ip) c' = lru_find (requestKey ip) c \<Longrightarrow>
   request_count c' t ip = request_count c t ip"
  by (simp add: request_count_def lru_get_value)

lemma middleware_in_cooldown:
  assumes "starts_with ''/api/instagram-proxy'' (pathname req)"
    and "in_cooldown c now (client_ip req)"
  shows "fst (middleware c now req) = Rejected 429 ''Too many requests'' ''Please try again later''"
    and "request_count (snd (middleware c now req)) t (client_ip req)
           = request_count c t (client_ip req)"
proof -
  obtain cd c1 where g: "lru_get c now (cooldownKey (client_ip req)) = (cd, c1)"
    by (cases "lru_get c now (cooldownKey (client_ip req))")
  have cd: "cached_truthy cd"
    using assms(2) g by (simp add: in_cooldown_def)
  have m: "middleware c now req
      = (Rejected 429 ''Too many requests'' ''Please try again later'', c1)"
    using assms(1) g cd by (simp add: middleware_def Let_def)
  show "fst (middleware c now req) = Rejected 429 ''Too many requests'' ''Please try again later''"
    using m by simp
  have "lru_find (requestKey (client_ip req)) c1 = lru_find (requestKey (client_ip req)) c"
    using lru_find_get_other [of "requestKey (client_ip req)" "cooldownKey (client_ip req)" c now]
      keys_differ [of "client_ip req" "client_ip req"] g
    by simp
  then have "request_count c1 t (client_ip req) = request_count c t (client_ip req)"
    by (rule request_count_find)
  then show "request_count (snd (middleware c now req)) t (client_ip req)
           = request_count c t (client_ip req)"
    using m by simp
qed

lemma middleware_open:
  assumes "starts_with ''/api/instagram-proxy'' (pathname req)"
    and "\<not> in_cooldown c now (client_ip req)"
  shows "middleware c now req =
     (let ip = client_ip req;
          c2 = snd (lru_get (snd (lru_get c now (cooldownKey ip))) now (requestKey ip));
          n = request_count c now ip;
          c3 = lru_set c2 now (requestKey ip) (Count (n + 1)) LRU_TTL
      in if REQUESTS_PER_IP_LIMIT \<le> n
         then (Rejected 429 ''Rate limit exceeded'' ''Too many requests, please try again later'',
               lru_set c3 now (cooldownKey ip) (Flag True) COOLDOWN_PERIOD)
         else (Accepted REQUESTS_PER_IP_LIMIT (REQUESTS_PER_IP_LIMIT - n - 1), c3))"
proof -
  let ?ip = "client_ip req"
  obtain cd c1 where g: "lru_get c now (cooldownKey ?ip) = (cd, c1)"
    by (cases "lru_get c now (cooldownKey ?ip)")
  obtain cnt c2 where h: "lru_get c1 now (requestKey ?ip) = (cnt, c2)"
    by (cases "lru_get c1 now (requestKey ?ip)")
  have cd: "\<not> cached_truthy cd"
    using assms(2) g by (simp add: in_cooldown_def)
  have same: "lru_find (requestKey ?ip) c1 = lru_find (requestKey ?ip) c"
    using lru_find_get_other [of "requestKey ?ip" "cooldownKey ?ip" c now]
      keys_differ [of ?ip ?ip] g
    by simp
  have "cnt = fst (lru_get c now (requestKey ?ip))"
    using h same lru_get_value [of c1 now "requestKey ?ip"] lru_get_value [of c now "requestKey ?ip"]
    by simp
  then have n: "to_number (or_zero cnt) = request_count c now ?ip"
    by (simp add: request_count_def)
  show ?thesis
    using assms(1) g h cd n by (simp add: middleware_def Let_def)
qed

lemma middleware_over_limit:
  assumes "starts_with ''/api/instagram-proxy'' (pathname req)"
    and "\<not> in_cooldown c now (client_ip req)"
    and "20 \<le> request_count c now (client_ip req)"
  shows "fst (middleware c now req)
      = Rejected 429 ''Rate limit exceeded'' ''Too many requests, please try again later''"
    and "t \<le> now + COOLDOWN_PERIOD \<Longrightarrow> in_cooldown (snd (middleware c now req)) t (client_ip req)"
    and "now + COOLDOWN_PERIOD < t \<Longrightarrow> \<not> in_cooldown (snd (middleware c now req)) t (client_ip req)"
proof -
  show "fst (middleware c now req)
      = Rejected 429 ''Rate limit exceeded'' ''Too many requests, please try again later''"
    using assms(3) by (simp add: middleware_open [OF assms(1,2)] Let_def REQUESTS_PER_IP_LIMIT_def)
  show "in_cooldown (snd (middleware c now req)) t (client_ip req)"
    if "t \<le> now + COOLDOWN_PERIOD"
    using assms(3) that
    by (simp add: middleware_open [OF assms(1,2)] Let_def REQUESTS_PER_IP_LIMIT_def
        in_cooldown_def lru_get_value lru_find_set_same is_stale_def)
  show "\<not> in_cooldown (snd (middleware c now req)) t (client_ip req)"
    if "now + COOLDOWN_PERIOD < t"
    using assms(3) that
    by (simp add: middleware_open [OF assms(1,2)] Let_def REQUESTS_PER_IP_LIMIT_def
        in_cooldown_def lru_get_value lru_find_set_same is_stale_def)
qed

lemma middleware_under_limit:
  assumes "starts_with ''/api/instagram-proxy'' (pathname req)"
    and "\<not> in_cooldown c now (client_ip req)"
    and "request_count c now (client_ip req) < 20"
  shows "fst (middleware c now req) = Accepted 20 (19 - request_count c now (client_ip req))"
    and "request_count (snd (middleware c now req)) now (client_ip req)
           = request_count c now (client_ip req) + 1"
proof -
  show "fst (middleware c now req) = Accepted 20 (19 - request_count c now (client_ip req))"
    using assms(3) by (simp add: middleware_open [OF assms(1,2)] Let_def REQUESTS_PER_IP_LIMIT_def)
  show "request_count (snd (middleware c now req)) now (client_ip req)
           = request_count c now (client_ip req) + 1"
    using assms(3)
    by (simp add: middleware_open [OF assms(1,2)] Let_def REQUESTS_PER_IP_LIMIT_def
        request_count_def [of "lru_set _ _ _ _ _"] lru_get_value lru_find_set_same is_stale_def
        LRU_TTL_def or_zero_def)
qed

subsection \<open>A burst from one client\<close>

lemma burst_append:
  "burst c req (ts @ us) =
     (case burst c req ts of
        (vs, c') \<Rightarrow> (case burst c' req us of (ws, c'') \<Rightarrow> (vs @ ws, c'')))"
  by (induction ts arbitrary: c) (auto split: prod.splits)

lemma step_first:
  assumes "starts_with ''/api/instagram-proxy'' (pathname req)"
  shows "middleware [] t req = (Accepted 20 19, [request_entry (client_ip req) 1 t])"
  using assms
  by (simp add: middleware_def lru_get_def lru_set_def lru_find_def Let_def or_zero_def
      REQUESTS_PER_IP_LIMIT_def request_entry_def LRU_MAX_def)

lemma step_count:
  assumes "starts_with ''/api/instagram-proxy'' (pathname req)"
    and "1 \<le> k" and "k < 20" and "t' - t \<le> LRU_TTL"
  shows "middleware [request_entry (client_ip req) k t] t' req
     = (Accepted 20 (19 - k), [request_entry (client_ip req) (k + 1) t'])"
  using assms keys_differ [of "client_ip req" "client_ip req"]
  by (simp add: middleware_def lru_get_def lru_set_def lru_find_def lru_delete_def Let_def
      or_zero_def REQUESTS_PER_IP_LIMIT_def request_entry_def is_stale_def)

lemma step_limit:
  assumes "starts_with ''/api/instagram-proxy'' (pathname req)"
    and "20 \<le> k" and "t' - t \<le> LRU_TTL"
  shows "middleware [request_entry (client_ip req) k t] t' req
     = (Rejected 429 ''Rate limit exceeded'' ''Too many requests, please try again later'',
        [cooldown_entry (client_ip req) t', request_entry (client_ip req) (k + 1) t'])"
  using assms keys_differ [of "client_ip req" "client_ip req"]
  by (simp add: middleware_def lru_get_def lru_set_def lru_find_def lru_delete_def Let_def
      or_zero_def REQUESTS_PER_IP_LIMIT_def request_entry_def cooldown_entry_def is_stale_def
      LRU_MAX_def)

lemma step_cooldown:
  assumes "starts_with ''/api/instagram-proxy'' (pathname req)"
    and "t' - t \<le> COOLDOWN_PERIOD"
  shows "middleware [cooldown_entry (client_ip req) t, request_entry (client_ip req) n t0] t' req
     = (Rejected 429 ''Too many requests'' ''Please try again later'',
        [cooldown_entry (client_ip req) t, request_entry (client_ip req) n t0])"
  using assms keys_differ [of "client_ip req" "client_ip req"]
  by (simp add: middleware_def lru_get_def lru_find_def lru_delete_def Let_def
      request_entry_def cooldown_entry_def is_stale_def)

lemma burst_counting:
  assumes "starts_with ''/api/instagram-proxy'' (pathname req)"
    and "1 \<le> k" and "k + length ts \<le> 20" and "sorted (t # ts)"
    and "\<forall>t' \<in> set ts. t' \<le> B" and "B \<le> t + LRU_TTL"
  shows "burst [request_entry (client_ip req) (int k) t] req ts
     = (map (\<lambda>j. Accepted 20 (19 - int j)) [k..<k + length ts],
        [request_entry (client_ip req) (int (k + length ts)) (last (t # ts))])"
  using assms(2-)
proof (induction ts arbitrary: k t)
  case Nil
  then show ?case by simp
next
  case (Cons t' ts)
  have step: "middleware [request_entry (client_ip req) (int k) t] t' req
     = (Accepted 20 (19 - int k), [request_entry (client_ip req) (int k + 1) t'])"
    using Cons.prems by (intro step_count [OF assms(1)]) auto
  have ih: "burst [request_entry (client_ip req) (int (Suc k)) t'] req ts
     = (map (\<lambda>j. Accepted 20 (19 - int j)) [Suc k..<Suc k + length ts],
        [request_entry (client_ip req) (int (Suc k + length ts)) (last (t' # ts))])"
    using Cons.prems by (intro Cons.IH) auto
  have idx: "[k..<k + length (t' # ts)] = k # [Suc k..<Suc k + length ts]"
  proof -
    have "k < k + length (t' # ts)" by simp
    from upt_conv_Cons [OF this] show ?thesis by simp
  qed
  have suc: "int k + 1 = int (Suc k)"
    by simp
  show ?case
    unfolding idx using step ih by (simp add: suc del: of_nat_Suc)
qed

lemma burst_cooldown:
  assumes "starts_with ''/api/instagram-proxy'' (pathname req)"
    and "\<forall>t' \<in> set us. t' \<le> t + COOLDOWN_PERIOD"
  shows "burst [cooldown_entry (client_ip req) t, request_entry (client_ip req) n t0] req us
     = (replicate (length us) (Rejected 429 ''Too many requests'' ''Please try again later''),
        [cooldown_entry (client_ip req) t, request_entry (client_ip req) n t0])"
  using assms(2)
proof (induction us)
  case Nil
  then show ?case by simp
next
  case (Cons t' us)
  have "t' - t \<le> COOLDOWN_PERIOD" using Cons.prems by simp
  from step_cooldown [OF assms(1) this] Cons show ?case by simp
qed

lemma burst_21:
  assumes "starts_with ''/api/instagram-proxy'' (pathname req)"
    and "sorted ts" and "length ts = 21" and "last ts - hd ts \<le> LRU_TTL"
  shows "burst [] req ts
     = (map (\<lambda>j. Accepted 20 (19 - int j)) [0..<20]
          @ [Rejected 429 ''Rate limit exceeded'' ''Too many requests, please try again later''],
        [cooldown_entry (client_ip req) (last ts), request_entry (client_ip req) 21 (last ts)])"
proof -
  from assms(3) obtain t1 rest where ts: "ts = t1 # rest" and rest: "length rest = 20"
    by (cases ts) auto
  from rest obtain mid tn where r: "rest = mid @ [tn]" and mid: "length mid = 19"
    by (cases rest rule: rev_cases) auto
  have sorted_mid: "sorted (t1 # mid)"
    using assms(2) by (simp add: ts r sorted_append)
  have le_tn: "\<forall>t' \<in> set (t1 # mid). t' \<le> tn"
    using assms(2) by (auto simp: ts r sorted_append)
  have window: "tn \<le> t1 + LRU_TTL"
    using assms(4) by (simp add: ts r)
  have first: "middleware [] t1 req = (Accepted 20 19, [request_entry (client_ip req) 1 t1])"
    by (rule step_first [OF assms(1)])
  have counted: "burst [request_entry (client_ip req) (int 1) t1] req mid
     = (map (\<lambda>j. Accepted 20 (19 - int j)) [1..<1 + length mid],
        [request_entry (client_ip req) (int (1 + length mid)) (last (t1 # mid))])"
    using sorted_mid le_tn window mid
    by (intro burst_counting [OF assms(1), where B = tn]) auto
  have "t1 \<le> last (t1 # mid)"
    using sorted_mid by (cases mid rule: rev_cases) (auto simp: sorted_append)
  then have gap: "tn - last (t1 # mid) \<le> LRU_TTL"
    using window by simp
  have limit: "middleware [request_entry (client_ip req) 20 (last (t1 # mid))] tn req
     = (Rejected 429 ''Rate limit exceeded'' ''Too many requests, please try again later'',
        [cooldown_entry (client_ip req) tn, request_entry (client_ip req) (20 + 1) tn])"
    by (rule step_limit [OF assms(1) _ gap]) simp
  have idx: "[0..<20] = 0 # [1..<20]"
    by (simp add: upt_conv_Cons)
  have "burst [] req (t1 # mid @ [tn])
     = (map (\<lambda>j. Accepted 20 (19 - int j)) [0..<20]
          @ [Rejected 429 ''Rate limit exceeded'' ''Too many requests, please try again later''],
        [cooldown_entry (client_ip req) tn, request_entry (client_ip req) 21 tn])"
    unfolding idx using first counted limit mid
    by (simp add: burst_append)
  then show ?thesis
    by (simp add: ts r)
qed

text \<open>
  Claim C1. For every request to the proxy route, every state of the limiter's cache and
  every time:
  \<^item> while the client's cooldown flag is live the request is rejected with 429, whatever
    its counter holds, and the counter reads the same afterwards at every time;
  \<^item> without a live flag, a request that finds the counter at 20 or more is rejected
    with 429 and leaves a flag that is live for the next \<^verbatim>\<open>COOLDOWN_PERIOD\<close> (5 minutes) and
    no longer;
  \<^item> without a live flag, a request that finds the counter below 20 is accepted (the one
    that finds 19, the 20th, with 0 remaining) and the counter is one higher;
  \<^item> 21 requests of one client to a fresh limiter, spanning at most \<^verbatim>\<open>ttl\<close> (15 minutes):
    the first 20 are accepted, the 21st is rejected with 429, and so is every later
    request up to 5 minutes after the 21st.
\<close>

theorem middleware_rate_limit:
  assumes "starts_with ''/api/instagram-proxy'' (pathname req)"
  shows
   "(in_cooldown c now (client_ip req) \<longrightarrow>
       fst (middleware c now req)
         = Rejected 429 ''Too many requests'' ''Please try again later'' \<and>
       (\<forall>t. request_count (snd (middleware c now req)) t (client_ip req)
              = request_count c t (client_ip req))) \<and>
    (\<not> in_cooldown c now (client_ip req) \<and> 20 \<le> request_count c now (client_ip req) \<longrightarrow>
       fst (middleware c now req)
         = Rejected 429 ''Rate limit exceeded'' ''Too many requests, please try again later'' \<and>
       (\<forall>t. now \<le> t \<and> t \<le> now + COOLDOWN_PERIOD \<longrightarrow>
              in_cooldown (snd (middleware c now req)) t (client_ip req)) \<and>
       (\<forall>t. now + COOLDOWN_PERIOD < t \<longrightarrow>
              \<not> in_cooldown (snd (middleware c now req)) t (client_ip req))) \<and>
    (\<not> in_cooldown c now (client_ip req) \<and> request_count c now (client_ip req) < 20 \<longrightarrow>
       fst (middleware c now req) = Accepted 20 (19 - request_count c now (client_ip req)) \<and>
       request_count (snd (middleware c now req)) now (client_ip req)
         = request_count c now (client_ip req) + 1) \<and>
    (sorted ts \<and> length ts = 21 \<and> last ts - hd ts \<le> LRU_TTL \<and>
       (\<forall>t \<in> set us. t \<le> last ts + COOLDOWN_PERIOD) \<longrightarrow>
       fst (burst [] req (ts @ us))
         = map (\<lambda>j. Accepted 20 (19 - int j)) [0..<20]
           @ [Rejected 429 ''Rate limit exceeded'' ''Too many requests, please try again later'']
           @ replicate (length us)
               (Rejected 429 ''Too many requests'' ''Please try again later''))"
proof -
  have trace: "fst (burst [] req (ts @ us))
         = map (\<lambda>j. Accepted 20 (19 - int j)) [0..<20]
           @ [Rejected 429 ''Rate limit exceeded'' ''Too many requests, please try again later'']
           @ replicate (length us)
               (Rejected 429 ''Too many requests'' ''Please try again later'')"
    if "sorted ts" and "length ts = 21" and "last ts - hd ts \<le> LRU_TTL"
      and "\<forall>t \<in> set us. t \<le> last ts + COOLDOWN_PERIOD"
    using burst_21 [OF assms that(1-3)] burst_cooldown [OF assms that(4)]
    by (simp add: burst_append)
  show ?thesis
    using middleware_in_cooldown [OF assms, of c now]
      middleware_over_limit [OF assms, of c now]
      middleware_under_limit [OF assms, of c now] trace
    by blast
qed

text \<open>
  The sample client: 21 requests one millisecond apart, then two more within five
  minutes; and the three single steps at a live flag, at a counter of 20 and at 19.
\<close>

theorem middleware_rate_limit_witness:
  "starts_with ''/api/instagram-proxy'' (pathname sample_request) \<and>
   sorted sample_times \<and> length sample_times = 21 \<and>
   last sample_times - hd sample_times \<le> LRU_TTL \<and>
   list_all (\<lambda>t. t \<le> last sample_times + COOLDOWN_PERIOD) [21, 300020] \<and>
   fst (burst [] sample_request (sample_times @ [21, 300020]))
     = [Accepted 20 19, Accepted 20 18, Accepted 20 17, Accepted 20 16, Accepted 20 15,
        Accepted 20 14, Accepted 20 13, Accepted 20 12, Accepted 20 11, Accepted 20 10,
        Accepted 20 9, Accepted 20 8, Accepted 20 7, Accepted 20 6, Accepted 20 5,
        Accepted 20 4, Accepted 20 3, Accepted 20 2, Accepted 20 1, Accepted 20 0,
        Rejected 429 ''Rate limit exceeded'' ''Too many requests, please try again later'',
        Rejected 429 ''Too many requests'' ''Please try again later'',
        Rejected 429 ''Too many requests'' ''Please try again later''] \<and>
   in_cooldown [cooldown_entry (client_ip sample_request) 20] 21 (client_ip sample_request) \<and>
   fst (middleware [cooldown_entry (client_ip sample_request) 20] 21 sample_request)
     = Rejected 429 ''Too many requests'' ''Please try again later'' \<and>
   \<not> in_cooldown [request_entry (client_ip sample_request) 20 19] 20 (client_ip sample_request) \<and>
   20 \<le> request_count [request_entry (client_ip sample_request) 20 19] 20 (client_ip sample_request) \<and>
   fst (middleware [request_entry (client_ip sample_request) 20 19] 20 sample_request)
     = Rejected 429 ''Rate limit exceeded'' ''Too many requests, please try again later'' \<and>
   \<not> in_cooldown [request_entry (client_ip sample_request) 19 18] 19 (client_ip sample_request) \<and>
   request_count [request_entry (client_ip sample_request) 19 18] 19 (client_ip sample_request) < 20 \<and>
   fst (middleware [request_entry (client_ip sample_request) 19 18] 19 sample_request)
     = Accepted 20 0"
proof -
  let ?ip = "client_ip sample_request"
  note kd = keys_differ [of ?ip ?ip]
  have path: "starts_with ''/api/instagram-proxy'' (pathname sample_request)"
    by (simp add: starts_with_def sample_request_def)
  have times: "sorted sample_times \<and> length sample_times = 21 \<and>
      last sample_times - hd sample_times \<le> LRU_TTL \<and>
      (\<forall>t \<in> set [21, 300020]. t \<le> last sample_times + COOLDOWN_PERIOD)"
    by (simp add: sample_times_def LRU_TTL_def COOLDOWN_PERIOD_def)
  have a: "in_cooldown [cooldown_entry ?ip 20] 21 ?ip"
    by (simp add: in_cooldown_def lru_get_def lru_find_def cooldown_entry_def is_stale_def
        COOLDOWN_PERIOD_def)
  have b: "\<not> in_cooldown [request_entry ?ip 20 19] 20 ?ip \<and>
      20 \<le> request_count [request_entry ?ip 20 19] 20 ?ip"
    using kd
    by (simp add: in_cooldown_def request_count_def lru_get_def lru_find_def request_entry_def
        is_stale_def LRU_TTL_def or_zero_def)
  have c: "\<not> in_cooldown [request_entry ?ip 19 18] 19 ?ip \<and>
      request_count [request_entry ?ip 19 18] 19 ?ip < 20"
    using kd
    by (simp add: in_cooldown_def request_count_def lru_get_def lru_find_def request_entry_def
        is_stale_def LRU_TTL_def or_zero_def)
  have c19: "request_count [request_entry ?ip 19 18] 19 ?ip = 19"
    using kd
    by (simp add: request_count_def lru_get_def lru_find_def request_entry_def
        is_stale_def LRU_TTL_def or_zero_def)
  have ra: "fst (middleware [cooldown_entry ?ip 20] 21 sample_request)
      = Rejected 429 ''Too many requests'' ''Please try again later''"
    using middleware_rate_limit [OF path, of "[cooldown_entry ?ip 20]" 21] a by blast
  have rb: "fst (middleware [request_entry ?ip 20 19] 20 sample_request)
      = Rejected 429 ''Rate limit exceeded'' ''Too many requests, please try again later''"
    using middleware_rate_limit [OF path, of "[request_entry ?ip 20 19]" 20] b by blast
  have "fst (middleware [request_entry ?ip 19 18] 19 sample_request)
      = Accepted 20 (19 - request_count [request_entry ?ip 19 18] 19 ?ip)"
    using middleware_rate_limit [OF path, of "[request_entry ?ip 19 18]" 19] c by blast
  then have rc: "fst (middleware [request_entry ?ip 19 18] 19 sample_request) = Accepted 20 0"
    by (simp add: c19)
  have "fst (burst [] sample_request (sample_times @ [21, 300020]))
      = map (\<lambda>j. Accepted 20 (19 - int j)) [0..<20]
        @ [Rejected 429 ''Rate limit exceeded'' ''Too many requests, please try again later'']
        @ replicate (length [21, 300020 :: int])
            (Rejected 429 ''Too many requests'' ''Please try again later'')"
    using middleware_rate_limit [OF path, of _ _ sample_times "[21, 300020]"] times by blast
  then have rd: "fst (burst [] sample_request (sample_times @ [21, 300020]))
     = [Accepted 20 19, Accepted 20 18, Accepted 20 17, Accepted 20 16, Accepted 20 15,
        Accepted 20 14, Accepted 20 13, Accepted 20 12, Accepted 20 11, Accepted 20 10,
        Accepted 20 9, Accepted 20 8, Accepted 20 7, Accepted 20 6, Accepted 20 5,
        Accepted 20 4, Accepted 20 3, Accepted 20 2, Accepted 20 1, Accepted 20 0,
        Rejected 429 ''Rate limit exceeded'' ''Too many requests, please try again later'',
        Rejected 429 ''Too many requests'' ''Please try again later'',
        Rejected 429 ''Too many requests'' ''Please try again later'']"
    by (simp add: upt_rec [of _ "20"] numeral_2_eq_2 del: upt_Suc)
  have all: "list_all (\<lambda>t. t \<le> last sample_times + COOLDOWN_PERIOD) [21, 300020]"
    using times by simp
  from path times all a ra b rb c rc rd show ?thesis
    by blast
qed

end
